theory Spec2Isabelle
  imports Complex_Main "HOL-Library.Multiset" "HOL-Library.Log_Nat"
begin

section \<open>Strings and numbers as the Python code uses them\<close>

text \<open>
  Strings are ASCII character lists. \<open>str_nat\<close> is Python's \<^verbatim>\<open>str(n)\<close> (and the
  \<^verbatim>\<open>{n}\<close> of an f-string) on a non-negative integer.
\<close>

definition digit_char :: "nat \<Rightarrow> char" where
  "digit_char d = ''0123456789'' ! (d mod 10)"

fun str_nat :: "nat \<Rightarrow> string" where
  "str_nat n = (if n < 10 then [digit_char n] else str_nat (n div 10) @ [digit_char (n mod 10)])"

declare str_nat.simps [simp del]

text \<open>
  \<^verbatim>\<open>s.isdigit()\<close> on ASCII text: non-empty and decimal digits only. (Python also
  accepts digits beyond ASCII, on which \<^verbatim>\<open>int\<close> can raise; the keys the program writes
  are ASCII.)
\<close>

definition isdigit :: "string \<Rightarrow> bool" where
  "isdigit s = (s \<noteq> [] \<and> list_all (\<lambda>c. c \<in> set ''0123456789'') s)"

definition digit_val :: "char \<Rightarrow> nat" where
  "digit_val c = (of_char c :: nat) - 48"

text \<open>\<^verbatim>\<open>int(s)\<close> on a string that passed \<^verbatim>\<open>isdigit\<close>.\<close>

definition int_of_str :: "string \<Rightarrow> nat" where
  "int_of_str s = foldl (\<lambda>a c. 10 * a + digit_val c) 0 s"

text \<open>
  \<^verbatim>\<open>k.replace('message', '')\<close>: every non-overlapping occurrence of the substring,
  scanning from the left, is removed; the result is not scanned again.
\<close>

function remove_message :: "string \<Rightarrow> string" where
  "remove_message s =
     (if take 7 s = ''message'' then remove_message (drop 7 s)
      else (case s of [] \<Rightarrow> [] | c # cs \<Rightarrow> c # remove_message cs))"
  by pat_completeness auto
termination
proof (relation "measure length", goal_cases)
  case 1
  show ?case by simp
next
  case (2 s)
  then have "s \<noteq> []" by auto
  then show ?case by simp
next
  case (3 s c cs)
  then show ?case by simp
qed

declare remove_message.simps [simp del]

text \<open>The f-string \<^verbatim>\<open>f'message{n}'\<close>.\<close>

definition message_key :: "nat \<Rightarrow> string" where
  "message_key n = ''message'' @ str_nat n"

section \<open>The message log\<close>

text \<open>
  A turn is the JSON object \<^verbatim>\<open>{'query': q, 'response': r}\<close>; a missing or null field is
  \<open>None\<close>. The log is a Python dict, which keeps insertion order: an association list
  whose keys are pairwise distinct. Only logs whose values are such objects with string
  fields are modelled.
\<close>

record turn =
  query :: "string option"
  response :: "string option"

type_synonym history = "(string \<times> turn) list"

text \<open>\<^verbatim>\<open>d[k] = v\<close> on an insertion-ordered dict.\<close>

definition dict_set :: "('k \<times> 'v) list \<Rightarrow> 'k \<Rightarrow> 'v \<Rightarrow> ('k \<times> 'v) list" where
  "dict_set d k v =
     (if k \<in> set (map fst d) then map (\<lambda>(k', v'). if k' = k then (k', v) else (k', v')) d
      else d @ [(k, v)])"

subsection \<open>backend/chat.py: chat_history\<close>

fun zip_longest :: "'a list \<Rightarrow> 'b list \<Rightarrow> ('a option \<times> 'b option) list" where
  "zip_longest [] [] = []"
| "zip_longest (x # xs) [] = (Some x, None) # zip_longest xs []"
| "zip_longest [] (y # ys) = (None, Some y) # zip_longest [] ys"
| "zip_longest (x # xs) (y # ys) = (Some x, Some y) # zip_longest xs ys"

definition chat_history :: "string list \<Rightarrow> string list \<Rightarrow> history" where
  "chat_history queries responses =
     foldl (\<lambda>messages (i, (q, r)). dict_set messages (message_key (i + 1)) \<lparr>query = q, response = r\<rparr>)
       [] (enumerate 0 (zip_longest queries responses))"

text \<open>The i-th element of a list, or \<open>None\<close> past its end.\<close>

definition nth_opt :: "'a list \<Rightarrow> nat \<Rightarrow> 'a option" where
  "nth_opt xs i = (if i < length xs then Some (xs ! i) else None)"

section \<open>utils.py: create_input_vector\<close>

text \<open>
  The data frame has one row and one column per vocabulary entry, all 0 at first.
  \<^verbatim>\<open>df[symp] = 1\<close> sets every column labelled with that name. The result is the row
  (\<^verbatim>\<open>.values\<close>), in vocabulary order.
\<close>

definition set_column :: "string list \<Rightarrow> string \<Rightarrow> nat list \<Rightarrow> nat list" where
  "set_column columns sy df = map (\<lambda>(col, v). if col = sy then 1 else v) (zip columns df)"

definition create_input_vector :: "string list \<Rightarrow> string list \<Rightarrow> nat list" where
  "create_input_vector SYMPTOMS selected_symptoms =
     foldl (\<lambda>df sy. if sy \<in> set SYMPTOMS then set_column SYMPTOMS sy df else df)
       (replicate (length SYMPTOMS) 0) selected_symptoms"

section \<open>Python floats\<close>

text \<open>
  A Python float is an IEEE binary64 value: a finite number, given here by the
  rational it denotes (the sign of zero is not kept), an infinity or NaN.
\<close>

datatype pyfloat = Fin rat | PosInf | NegInf | NaN

text \<open>For \<open>x > 0\<close>, the exponent \<open>e\<close> with \<open>2 ^ e \<le> x < 2 ^ (e + 1)\<close>.\<close>

definition floor_log2 :: "rat \<Rightarrow> int" where
  "floor_log2 x =
     (let (n, d) = quotient_of x; k = bitlen n - bitlen d
      in if 2 powi k \<le> x then k else k - 1)"

definition round_half_even :: "rat \<Rightarrow> int" where
  "round_half_even x =
     (let f = \<lfloor>x\<rfloor>; d = x - of_int f
      in if d < 1 / 2 then f else if 1 / 2 < d then f + 1 else if even f then f else f + 1)"

text \<open>
  The binary64 value of a real result: 53 significant bits (fewer below
  \<open>2 ^ -1022\<close>), round to nearest, ties to even, overflow to an infinity.
\<close>

definition round_binary64 :: "rat \<Rightarrow> pyfloat" where
  "round_binary64 x =
     (if x = 0 then Fin 0
      else
        (let a = \<bar>x\<bar>;
             e = max (floor_log2 a) (- 1022);
             q = e - 52;
             r = of_int (round_half_even (a / 2 powi q)) * 2 powi q
         in if 2 powi 1024 \<le> r then (if x < 0 then NegInf else PosInf)
            else Fin (if x < 0 then - r else r)))"

text \<open>
  \<^verbatim>\<open>float(v)\<close> of a NumPy scalar keeps its value. The numbers a classifier of the
  model returns are read as the binary64 values nearest to them.
\<close>

definition py_float :: "pyfloat \<Rightarrow> pyfloat" where
  "py_float v = (case v of Fin x \<Rightarrow> round_binary64 x | _ \<Rightarrow> v)"

text \<open>The literal \<^verbatim>\<open>0.001\<close>.\<close>

definition lit_0_001 :: pyfloat where
  "lit_0_001 = round_binary64 (1 / 1000)"

text \<open>\<^verbatim>\<open>a > b\<close>: false as soon as one side is NaN.\<close>

definition float_gt :: "pyfloat \<Rightarrow> pyfloat \<Rightarrow> bool" where
  "float_gt a b =
     (case (a, b) of
        (NaN, _) \<Rightarrow> False
      | (_, NaN) \<Rightarrow> False
      | (PosInf, PosInf) \<Rightarrow> False
      | (PosInf, _) \<Rightarrow> True
      | (_, PosInf) \<Rightarrow> False
      | (NegInf, _) \<Rightarrow> False
      | (Fin x, NegInf) \<Rightarrow> True
      | (Fin x, Fin y) \<Rightarrow> y < x)"

text \<open>\<^verbatim>\<open>max(a, b)\<close> of the builtins keeps \<open>a\<close> unless \<^verbatim>\<open>b > a\<close>.\<close>

definition py_max :: "pyfloat \<Rightarrow> pyfloat \<Rightarrow> pyfloat" where
  "py_max a b = (if float_gt b a then b else a)"

subsection \<open>The percentage format\<close>

text \<open>
  \<^verbatim>\<open>f"{p:.2%}"\<close> multiplies the float by 100 (a binary64 multiplication), prints the
  product with two fractional digits, correctly rounded from its exact value with ties
  to even, and appends the percent sign; an infinity prints as \<open>inf\<close>, NaN as \<open>nan\<close>.
\<close>

definition times100 :: "pyfloat \<Rightarrow> pyfloat" where
  "times100 p = (case p of Fin x \<Rightarrow> round_binary64 (x * 100) | _ \<Rightarrow> p)"

definition format_fixed2 :: "rat \<Rightarrow> string" where
  "format_fixed2 x =
     (let n = nat (round_half_even (\<bar>x\<bar> * 100))
      in (if x < 0 then ''-'' else []) @ str_nat (n div 100) @ ''.''
           @ [digit_char (n mod 100 div 10), digit_char (n mod 10)])"

definition format_pct :: "pyfloat \<Rightarrow> string" where
  "format_pct p =
     (case times100 p of
        Fin x \<Rightarrow> format_fixed2 x
      | PosInf \<Rightarrow> ''inf''
      | NegInf \<Rightarrow> ''-inf''
      | NaN \<Rightarrow> ''nan'') @ ''%''"

section \<open>Exceptions and external collaborators\<close>

text \<open>
  Every \<^verbatim>\<open>raise\<close> of the source is a value. The detail of an \<^verbatim>\<open>HTTPException\<close> is
  kept structurally: \<open>Formatted p e\<close> is the f-string \<^verbatim>\<open>f"{p}{str(e)}"\<close> and
  \<open>FormattedList p xs\<close> is \<^verbatim>\<open>f"{p}{xs}"\<close>.
\<close>

datatype exn =
    HTTPException nat detail
  | AttributeError
  | ValueError
  | IndexError
  | JSONDecodeError
  | ModelError string
  | LLMError string
and detail =
    Text string
  | Formatted string exn
  | FormattedList string "string list"

datatype message = HumanMessage string | AIMessage string

text \<open>
  The TEXT columns \<open>symptoms\<close> and \<open>messages\<close> hold JSON. They are classified by what
  \<^verbatim>\<open>json.loads\<close> makes of them, which is all the code looks at: SQL NULL, the empty
  string, text that does not parse, text that parses to another type, and a list of
  names (a dict of turns for \<open>messages\<close>).
\<close>

datatype symptoms_col = SymNull | SymEmptyStr | SymInvalidJson | SymNotList | SymList "string list"

datatype messages_col = MsgInvalidJson | MsgNotDict | MsgDict history

text \<open>
  The module-level objects of utils.py and the libraries behind them are parameters:
  the vocabulary \<open>SYMPTOMS\<close>, the classifier (\<^verbatim>\<open>PREDICTION_MODEL.predict(v)[0]\<close>, which
  returns the class probabilities or raises), the disease table (Encoded, Disease),
  the LLM chain (system message and conversation to the answer, or a raise), the
  rendering of the system prompt, and whether the connection object takes new
  attributes (\<^verbatim>\<open>setattr(conn, ...)\<close> raises \<^verbatim>\<open>AttributeError\<close> on an \<^verbatim>\<open>sqlite3.Connection\<close>).
\<close>

record env =
  SYMPTOMS :: "string list"
  PREDICTION_MODEL :: "nat list \<Rightarrow> exn + pyfloat list"
  disease_mapping :: "(nat \<times> string) list"
  CHAT_MODEL :: "string \<Rightarrow> message list \<Rightarrow> exn + string"
  system_prompt :: "string option \<Rightarrow> symptoms_col \<Rightarrow> string"
  conn_accepts_attributes :: bool

text \<open>
  \<^verbatim>\<open>np.max\<close> and \<^verbatim>\<open>np.argmax\<close> of a one-dimensional array: both raise on an empty array,
  a NaN in the array is the maximum, and \<^verbatim>\<open>argmax\<close> is the first index of the maximum.
\<close>

definition np_max :: "pyfloat list \<Rightarrow> exn + pyfloat" where
  "np_max xs =
     (case xs of [] \<Rightarrow> Inl ValueError
      | x # r \<Rightarrow> Inr (if NaN \<in> set xs then NaN
                       else fold (\<lambda>y m. if float_gt y m then y else m) r x))"

definition np_argmax :: "pyfloat list \<Rightarrow> exn + nat" where
  "np_argmax xs =
     (case np_max xs of Inl e \<Rightarrow> Inl e
      | Inr m \<Rightarrow> Inr (length (takeWhile (\<lambda>y. y \<noteq> m) xs)))"

section \<open>The store (backend/db.py)\<close>

record chat_row =
  user_id :: nat
  chat_id :: nat
  messages :: messages_col
  disease :: "string option"
  symptoms :: symptoms_col
  confidence :: "string option"
  created_at :: nat

text \<open>
  The table \<open>ChatDetails\<close>, and whether it has the column \<open>confidence\<close> (what
  \<^verbatim>\<open>PRAGMA table_info\<close> reports). Timestamps are abstract and ordered (the column is
  written by the program with \<^verbatim>\<open>datetime.now().isoformat()\<close>, so it parses and sorts as
  time); statements of the store do not fail.
\<close>

record store =
  has_confidence_column :: bool
  ChatDetails_rows :: "chat_row list"

text \<open>\<^verbatim>\<open>ALTER TABLE ChatDetails ADD COLUMN confidence TEXT\<close>: the new column is NULL everywhere.\<close>

definition add_confidence_column :: "store \<Rightarrow> store" where
  "add_confidence_column s =
     \<lparr>has_confidence_column = True,
      ChatDetails_rows = map (\<lambda>r. r\<lparr>confidence := None\<rparr>) (ChatDetails_rows s)\<rparr>"

text \<open>\<^verbatim>\<open>UPDATE ChatDetails SET confidence = ? WHERE chat_id = ?\<close>\<close>

definition update_confidence_sql :: "string \<Rightarrow> nat \<Rightarrow> store \<Rightarrow> store" where
  "update_confidence_sql v cid s =
     s\<lparr>ChatDetails_rows :=
         map (\<lambda>r. if chat_id r = cid then r\<lparr>confidence := Some v\<rparr> else r) (ChatDetails_rows s)\<rparr>"

text \<open>\<^verbatim>\<open>UPDATE ChatDetails SET messages = ? WHERE chat_id = ? AND user_id = ?\<close>\<close>

definition update_messages_sql :: "messages_col \<Rightarrow> nat \<Rightarrow> nat \<Rightarrow> store \<Rightarrow> store" where
  "update_messages_sql m cid uid s =
     s\<lparr>ChatDetails_rows :=
         map (\<lambda>r. if chat_id r = cid \<and> user_id r = uid then r\<lparr>messages := m\<rparr> else r)
           (ChatDetails_rows s)\<rparr>"

text \<open>The write-back of main.py: add the column when it is missing, then update the row.\<close>

definition store_confidence :: "string \<Rightarrow> nat \<Rightarrow> store \<Rightarrow> store" where
  "store_confidence v cid s =
     update_confidence_sql v cid (if has_confidence_column s then s else add_confidence_column s)"

text \<open>\<^verbatim>\<open>create_chat\<close>: the key is AUTOINCREMENT, one more than the largest key in use.\<close>

definition create_chat ::
  "nat \<Rightarrow> nat \<Rightarrow> history \<Rightarrow> string option \<Rightarrow> string list \<Rightarrow> string option \<Rightarrow> store \<Rightarrow> nat \<times> store" where
  "create_chat uid time_str messages_dict dis syms conf s =
     (let s1 = (if has_confidence_column s then s else add_confidence_column s);
          new_id = Suc (fold max (map chat_id (ChatDetails_rows s1)) 0);
          row = \<lparr>user_id = uid, chat_id = new_id, messages = MsgDict messages_dict, disease = dis,
                 symptoms = (if syms \<noteq> [] then SymList syms else SymNull),
                 confidence = conf, created_at = time_str\<rparr>
      in (new_id, s1\<lparr>ChatDetails_rows := ChatDetails_rows s1 @ [row]\<rparr>))"

section \<open>main.py: POST /predict\<close>

record prediction_response =
  pr_disease :: string
  pr_confidence :: string
  pr_symptoms_count :: nat
  pr_chat_id :: nat

text \<open>
  \<^verbatim>\<open>disease_mapping.loc[disease_mapping['Encoded'] == c]['Disease'].iloc[0]\<close>: the first
  row of that class, \<^verbatim>\<open>IndexError\<close> when there is none.
\<close>

definition lookup_disease :: "(nat \<times> string) list \<Rightarrow> nat \<Rightarrow> exn + string" where
  "lookup_disease mapping c =
     (case filter (\<lambda>(encoded, d). encoded = c) mapping of
        [] \<Rightarrow> Inl IndexError
      | (encoded, d) # rest \<Rightarrow> Inr d)"

text \<open>The body of the \<^verbatim>\<open>try\<close> block of \<^verbatim>\<open>predict\<close>.\<close>

definition predict_try ::
  "env \<Rightarrow> store \<Rightarrow> nat \<Rightarrow> nat \<Rightarrow> string list \<Rightarrow> (exn + prediction_response) \<times> store" where
  "predict_try env s now uid selected_symptoms =
     (let invalid_symptoms = filter (\<lambda>x. x \<notin> set (SYMPTOMS env)) selected_symptoms
      in if invalid_symptoms \<noteq> []
         then (Inl (HTTPException 400 (FormattedList ''Invalid symptoms: '' invalid_symptoms)), s)
         else
           (let symptom_array = create_input_vector (SYMPTOMS env) selected_symptoms
            in case PREDICTION_MODEL env symptom_array of
                 Inl e \<Rightarrow> (Inl e, s)
               | Inr prediction \<Rightarrow>
                   (case np_argmax prediction of
                      Inl e \<Rightarrow> (Inl e, s)
                    | Inr predicted_class \<Rightarrow>
                        (case np_max prediction of
                           Inl e \<Rightarrow> (Inl e, s)
                         | Inr m \<Rightarrow>
                             (case lookup_disease (disease_mapping env) predicted_class of
                                Inl e \<Rightarrow> (Inl e, s)
                              | Inr actual_disease \<Rightarrow>
                                  (let probability = py_float m;
                                       probability' = py_max lit_0_001 probability;
                                       confidence_str = format_pct probability';
                                       (cid, s') = create_chat uid now [] (Some actual_disease)
                                                     selected_symptoms (Some confidence_str) s
                                   in (Inr \<lparr>pr_disease = actual_disease,
                                            pr_confidence = confidence_str,
                                            pr_symptoms_count = length selected_symptoms,
                                            pr_chat_id = cid\<rparr>, s')))))))"

text \<open>
  The handlers: \<^verbatim>\<open>except IndexError\<close>, then \<^verbatim>\<open>except Exception\<close>, which also catches the
  \<^verbatim>\<open>HTTPException\<close> raised inside the block.
\<close>

definition predict ::
  "env \<Rightarrow> store \<Rightarrow> nat \<Rightarrow> nat \<Rightarrow> string list \<Rightarrow> (exn + prediction_response) \<times> store" where
  "predict env s now uid selected_symptoms =
     (case predict_try env s now uid selected_symptoms of
        (Inr r, s') \<Rightarrow> (Inr r, s')
      | (Inl e, s') \<Rightarrow>
          (if e = IndexError
           then (Inl (HTTPException 500 (Text ''Prediction failed: Disease mapping not found'')), s')
           else (Inl (HTTPException 500 (Formatted ''Prediction failed: '' e)), s')))"

section \<open>main.py: POST /update-confidence\<close>

record update_confidence_response =
  uc_chat_id :: nat
  uc_confidence :: string
  uc_message :: string

definition update_confidence_try ::
  "env \<Rightarrow> store \<Rightarrow> nat \<Rightarrow> nat \<Rightarrow> (exn + update_confidence_response) \<times> store" where
  "update_confidence_try env s uid cid =
     (case find (\<lambda>r. user_id r = uid \<and> chat_id r = cid) (ChatDetails_rows s) of
        None \<Rightarrow> (Inl (HTTPException 404 (Text ''Chat not found'')), s)
      | Some chat_data \<Rightarrow>
          (case symptoms chat_data of
             SymNull \<Rightarrow> (Inl (HTTPException 400 (Text ''No symptoms found for this chat'')), s)
           | SymEmptyStr \<Rightarrow> (Inl (HTTPException 400 (Text ''No symptoms found for this chat'')), s)
           | SymInvalidJson \<Rightarrow> (Inl (HTTPException 400 (Text ''Failed to parse symptoms data'')), s)
           | SymNotList \<Rightarrow> (Inl (HTTPException 400 (Text ''Invalid symptoms data'')), s)
           | SymList stored_symptoms \<Rightarrow>
               (if stored_symptoms = []
                then (Inl (HTTPException 400 (Text ''Invalid symptoms data'')), s)
                else
                  (let pred_arr = create_input_vector (SYMPTOMS env) stored_symptoms
                   in case PREDICTION_MODEL env pred_arr of
                        Inl e \<Rightarrow> (Inl e, s)
                      | Inr pred \<Rightarrow>
                          (case np_max pred of
                             Inl e \<Rightarrow> (Inl e, s)
                           | Inr m \<Rightarrow>
                               (let prob = py_float m;
                                    prob' = py_max lit_0_001 prob;
                                    confidence_value = format_pct prob'
                                in (Inr \<lparr>uc_chat_id = cid, uc_confidence = confidence_value,
                                         uc_message = ''Confidence updated successfully''\<rparr>,
                                    store_confidence confidence_value cid s)))))))"

text \<open>The handlers: \<^verbatim>\<open>except HTTPException: raise\<close> first, then \<^verbatim>\<open>except Exception\<close>.\<close>

definition update_confidence ::
  "env \<Rightarrow> store \<Rightarrow> nat \<Rightarrow> nat \<Rightarrow> (exn + update_confidence_response) \<times> store" where
  "update_confidence env s uid cid =
     (case update_confidence_try env s uid cid of
        (Inr r, s') \<Rightarrow> (Inr r, s')
      | (Inl (HTTPException code d), s') \<Rightarrow> (Inl (HTTPException code d), s')
      | (Inl e, s') \<Rightarrow> (Inl (HTTPException 500 (Formatted ''Failed to update confidence: '' e)), s'))"

section \<open>main.py: GET /chat-history\<close>

record chat_details =
  cd_chat_id :: nat
  cd_user_id :: nat
  cd_created_at :: nat
  cd_messages :: history
  cd_disease :: "string option"
  cd_confidence :: "string option"

record pagination_info =
  pg_page :: nat
  pg_per_page :: nat
  pg_total :: nat
  pg_pages :: nat

record chat_history_response =
  chats :: "chat_details list"
  pagination :: "pagination_info option"

text \<open>
  What the loop over the fetched rows threads along: the store, the attribute
  \<^verbatim>\<open>_compute_count\<close> of the connection (\<open>None\<close> while it was never set), and, as a
  record of the effects, the vectors handed to the classifier so far.
\<close>

record hist_state =
  db :: store
  conn_compute_count :: "nat option"
  classifier_calls :: "nat list list"

definition parse_messages :: "messages_col \<Rightarrow> history" where
  "parse_messages m = (case m of MsgDict d \<Rightarrow> d | _ \<Rightarrow> [])"

definition parse_symptoms :: "symptoms_col \<Rightarrow> string list" where
  "parse_symptoms sc = (case sc of SymList xs \<Rightarrow> xs | _ \<Rightarrow> [])"

text \<open>
  The test of a stored value. \<open>in_row_dict\<close> says whether the fetched row has the key
  \<open>confidence\<close>, that is, whether the column was there when the page was selected.
\<close>

definition has_valid_confidence :: "bool \<Rightarrow> bool \<Rightarrow> string option \<Rightarrow> bool" where
  "has_valid_confidence has_column in_row_dict stored =
     (has_column \<and> in_row_dict \<and> stored \<noteq> None
      \<and> stored \<notin> {Some [], Some ''0%'', Some ''0.00%''})"

text \<open>
  The budget: it is looked at only when the recompute flag is off and the column is
  missing. The result is \<open>should_compute\<close> and \<open>confidence_value\<close>.
\<close>

definition budget_gate ::
  "env \<Rightarrow> bool \<Rightarrow> bool \<Rightarrow> hist_state \<Rightarrow> (exn + bool \<times> string option) \<times> hist_state" where
  "budget_gate env recompute_confidence has_column st =
     (let confidence_value = None;
          should_compute = (recompute_confidence \<or> confidence_value = None \<or> \<not> has_column)
      in if should_compute \<and> \<not> recompute_confidence \<and> \<not> has_column
         then
           (let compute_count = (case conn_compute_count st of None \<Rightarrow> 0 | Some n \<Rightarrow> n)
            in if compute_count > 5 then (Inr (False, Some ''0.10%''), st)
               else if conn_accepts_attributes env
                    then (Inr (should_compute, confidence_value),
                          st\<lparr>conn_compute_count := Some (compute_count + 1)\<rparr>)
                    else (Inl AttributeError, st))
         else (Inr (should_compute, confidence_value), st))"

text \<open>Vectorise, classify, floor, format, write back.\<close>

definition compute_and_store ::
  "env \<Rightarrow> chat_row \<Rightarrow> string list \<Rightarrow> hist_state \<Rightarrow> (exn + string option) \<times> hist_state" where
  "compute_and_store env c stored_symptoms st =
     (let pred_arr = create_input_vector (SYMPTOMS env) stored_symptoms;
          st1 = st\<lparr>classifier_calls := classifier_calls st @ [pred_arr]\<rparr>
      in case PREDICTION_MODEL env pred_arr of
           Inl e \<Rightarrow> (Inl e, st1)
         | Inr pred \<Rightarrow>
             (case np_max pred of
                Inl e \<Rightarrow> (Inl e, st1)
              | Inr m \<Rightarrow>
                  (let prob = py_float m;
                       prob' = py_max lit_0_001 prob;
                       confidence_value = format_pct prob'
                   in (Inr (Some confidence_value),
                       st1\<lparr>db := store_confidence confidence_value (chat_id c) (db st1)\<rparr>))))"

text \<open>The body of the per-row \<^verbatim>\<open>try\<close> block.\<close>

definition confidence_try ::
  "env \<Rightarrow> bool \<Rightarrow> bool \<Rightarrow> chat_row \<Rightarrow> hist_state \<Rightarrow> (exn + string option) \<times> hist_state" where
  "confidence_try env recompute_confidence in_row_dict c st =
     (let has_column = has_confidence_column (db st)
      in if has_valid_confidence has_column in_row_dict (confidence c) then (Inr (confidence c), st)
         else if symptoms c \<noteq> SymNull \<and> symptoms c \<noteq> SymEmptyStr
         then
           (let stored_symptoms = parse_symptoms (symptoms c)
            in if stored_symptoms \<noteq> []
               then
                 (case budget_gate env recompute_confidence has_column st of
                    (Inl e, st1) \<Rightarrow> (Inl e, st1)
                  | (Inr (should_compute, confidence_value), st1) \<Rightarrow>
                      (if should_compute then compute_and_store env c stored_symptoms st1
                       else (Inr confidence_value, st1)))
               else (Inr None, st))
         else (Inr None, st))"

text \<open>The per-row handler: any exception gives the placeholder.\<close>

definition row_confidence ::
  "env \<Rightarrow> bool \<Rightarrow> bool \<Rightarrow> chat_row \<Rightarrow> hist_state \<Rightarrow> string option \<times> hist_state" where
  "row_confidence env recompute_confidence in_row_dict c st =
     (case confidence_try env recompute_confidence in_row_dict c st of
        (Inl e, st1) \<Rightarrow> (Some ''0.10%'', st1)
      | (Inr v, st1) \<Rightarrow> (v, st1))"

fun chat_hist_loop ::
  "env \<Rightarrow> nat \<Rightarrow> bool \<Rightarrow> bool \<Rightarrow> chat_row list \<Rightarrow> hist_state \<Rightarrow> chat_details list \<times> hist_state" where
  "chat_hist_loop env uid recompute_confidence in_row_dict [] st = ([], st)"
| "chat_hist_loop env uid recompute_confidence in_row_dict (c # cs) st =
     (let messages_dict = parse_messages (messages c);
          (confidence_value, st1) = row_confidence env recompute_confidence in_row_dict c st;
          chat = \<lparr>cd_chat_id = chat_id c, cd_user_id = uid, cd_created_at = created_at c,
                  cd_messages = messages_dict, cd_disease = disease c,
                  cd_confidence = confidence_value\<rparr>;
          (rest, st2) = chat_hist_loop env uid recompute_confidence in_row_dict cs st1
      in (chat # rest, st2))"

text \<open>
  \<^verbatim>\<open>SELECT * FROM ChatDetails WHERE user_id = ? ORDER BY created_at DESC LIMIT ? OFFSET ?\<close>
  (SQL leaves the order of equal timestamps open; SQLite sorts stably, so they come in
  the order of the table, and so they do here.)
\<close>

definition select_page :: "store \<Rightarrow> nat \<Rightarrow> nat \<Rightarrow> nat \<Rightarrow> chat_row list" where
  "select_page s uid per_page offset =
     take per_page (drop offset
       (rev (sort_key created_at (rev (filter (\<lambda>r. user_id r = uid) (ChatDetails_rows s))))))"

text \<open>
  The endpoint, for \<open>page \<ge> 1\<close> (the framework rejects other requests). The connection
  is opened by the call, so \<^verbatim>\<open>_compute_count\<close> starts unset. The preview the loop
  extracts is not part of the response and is left out. With a store that does not
  fail, nothing outside the per-row block raises, so the outer handler (a 500) is never
  reached and the function returns the response and the final state.
\<close>

definition chat_hist ::
  "env \<Rightarrow> store \<Rightarrow> nat \<Rightarrow> nat \<Rightarrow> nat \<Rightarrow> bool \<Rightarrow> chat_history_response \<times> hist_state" where
  "chat_hist env s uid page per_page recompute_confidence =
     (let st0 = \<lparr>db = s, conn_compute_count = None, classifier_calls = []\<rparr>;
          total_count = length (filter (\<lambda>r. user_id r = uid) (ChatDetails_rows s));
          offset = (page - 1) * per_page;
          chat_data = select_page s uid per_page offset
      in if chat_data = [] then (\<lparr>chats = [], pagination = None\<rparr>, st0)
         else
           (let (chats', st) = chat_hist_loop env uid recompute_confidence
                                 (has_confidence_column s) chat_data st0;
                total_pages = (total_count + per_page - 1) div per_page
            in (\<lparr>chats = chats',
                 pagination = Some \<lparr>pg_page = page, pg_per_page = per_page,
                                    pg_total = total_count, pg_pages = total_pages\<rparr>\<rparr>, st)))"

section \<open>main.py: POST /chat-message\<close>

record llm_response =
  lr_chat_id :: nat
  lr_response :: string
  lr_response_at :: nat

text \<open>The truth value of \<^verbatim>\<open>msg.get(key)\<close>: present and not the empty string.\<close>

definition turn_messages :: "turn \<Rightarrow> message list" where
  "turn_messages msg =
     (case query msg of None \<Rightarrow> [] | Some q \<Rightarrow> if q \<noteq> [] then [HumanMessage q] else [])
     @ (case response msg of None \<Rightarrow> [] | Some r \<Rightarrow> if r \<noteq> [] then [AIMessage r] else [])"

text \<open>The sort key of \<^verbatim>\<open>sorted(stored_history.keys(), key=...)\<close>; \<^verbatim>\<open>sorted\<close> is stable.\<close>

definition msg_sort_key :: "string \<Rightarrow> nat" where
  "msg_sort_key k = (if isdigit (remove_message k) then int_of_str (remove_message k) else 0)"

definition sorted_keys :: "history \<Rightarrow> string list" where
  "sorted_keys stored_history = sort_key msg_sort_key (map fst stored_history)"

definition replay :: "history \<Rightarrow> message list" where
  "replay stored_history =
     concat (map (\<lambda>msg_key. case map_of stored_history msg_key of
                               None \<Rightarrow> [] | Some msg \<Rightarrow> turn_messages msg)
               (sorted_keys stored_history))"

definition next_msg_num :: "history \<Rightarrow> nat" where
  "next_msg_num stored_history =
     (if stored_history \<noteq> []
      then (let msg_numbers = map (\<lambda>k. int_of_str (remove_message k))
                                (filter (\<lambda>k. isdigit (remove_message k)) (map fst stored_history))
            in if msg_numbers \<noteq> [] then Max (set msg_numbers) + 1 else 1)
      else 1)"

subsection \<open>backend/chat.py: get_query\<close>

definition human_message_text :: "string \<Rightarrow> string option \<Rightarrow> string" where
  "human_message_text q dis =
     (let d = (case dis of None \<Rightarrow> ''None'' | Some x \<Rightarrow> x)
      in if q = ''Explain my disease in simple words''
           then ''Explain my '' @ d @ '' in simple words.''
         else if q = ''Is this curable? If yes, how long?''
           then ''Is '' @ d @ '' curable? If yes, how long?''
         else if q = ''Write prescription & health tips''
           then ''Write prescription & health tips for me to recover from '' @ d @ ''.''
         else if q = ''When should I see a doctor?''
           then ''When should I see a doctor for my '' @ d @ ''?''
         else ''Disease: '' @ d @ [CHR 0x0A] @ q)"

text \<open>
  \<^verbatim>\<open>_invoke_and_record\<close> re-raises what the chain raises; the messages it appends go to
  the local list only. \<open>now\<close> is the clock.
\<close>

definition get_query ::
  "env \<Rightarrow> string \<Rightarrow> string \<Rightarrow> message list \<Rightarrow> string option \<Rightarrow> nat \<Rightarrow> exn + string \<times> nat" where
  "get_query env q system_msg conversation dis now =
     (let conversation' = conversation @ [HumanMessage (human_message_text q dis)]
      in case CHAT_MODEL env system_msg conversation' of
           Inl e \<Rightarrow> Inl e
         | Inr ai_content \<Rightarrow> Inr (ai_content, now))"

text \<open>The body of the \<^verbatim>\<open>try\<close> block of \<^verbatim>\<open>conversation\<close>.\<close>

definition conversation_try ::
  "env \<Rightarrow> store \<Rightarrow> nat \<Rightarrow> nat \<Rightarrow> string \<Rightarrow> nat \<Rightarrow> (exn + llm_response) \<times> store" where
  "conversation_try env s uid cid q now =
     (case find (\<lambda>r. chat_id r = cid \<and> user_id r = uid) (ChatDetails_rows s) of
        None \<Rightarrow> (Inl (HTTPException 404 (Text ''Chat not found'')), s)
      | Some chat_row \<Rightarrow>
          (if symptoms chat_row = SymInvalidJson then (Inl JSONDecodeError, s)
           else
             (let stored_history = parse_messages (messages chat_row);
                  system_msg = system_prompt env (disease chat_row) (symptoms chat_row);
                  conversation = replay stored_history
              in case get_query env q system_msg conversation (disease chat_row) now of
                   Inl e \<Rightarrow> (Inl e, s)
                 | Inr (resp, response_at) \<Rightarrow>
                     (let new_message_key = message_key (next_msg_num stored_history);
                          stored_history' = dict_set stored_history new_message_key
                                              \<lparr>query = Some q, response = Some resp\<rparr>
                      in (Inr \<lparr>lr_chat_id = cid, lr_response = resp, lr_response_at = response_at\<rparr>,
                          update_messages_sql (MsgDict stored_history') cid uid s)))))"

text \<open>The only handler is \<^verbatim>\<open>except Exception\<close>; it turns every exception into a 500.\<close>

definition conversation ::
  "env \<Rightarrow> store \<Rightarrow> nat \<Rightarrow> nat \<Rightarrow> string \<Rightarrow> nat \<Rightarrow> (exn + llm_response) \<times> store" where
  "conversation env s uid cid q now =
     (case conversation_try env s uid cid q now of
        (Inr r, s') \<Rightarrow> (Inr r, s')
      | (Inl e, s') \<Rightarrow> (Inl (HTTPException 500 (Formatted ''Failed to process chat: '' e)), s'))"

subsection \<open>The validity predicate as the specification words it\<close>

definition isValid :: "string option \<Rightarrow> bool" where
  "isValid c = (c \<noteq> None \<and> c \<noteq> Some [] \<and> c \<noteq> Some ''0%'' \<and> c \<noteq> Some ''0.00%'')"

subsection \<open>Names for the statements\<close>

text \<open>
  The largest class probability for a list of symptoms as a Python float, or what the
  vectoriser, the classifier or \<^verbatim>\<open>np.max\<close> raised: the three lines every recomputation
  starts with.
\<close>

definition max_probability :: "env \<Rightarrow> string list \<Rightarrow> exn + pyfloat" where
  "max_probability env syms =
     (case PREDICTION_MODEL env (create_input_vector (SYMPTOMS env) syms) of
        Inl e \<Rightarrow> Inl e
      | Inr pred \<Rightarrow> map_sum id py_float (np_max pred))"

text \<open>A table without the column \<open>confidence\<close> holds no confidence value.\<close>

definition store_ok :: "store \<Rightarrow> bool" where
  "store_ok s = (has_confidence_column s \<or> list_all (\<lambda>r. confidence r = None) (ChatDetails_rows s))"

text \<open>
  A row whose recomputation is attempted and raises: no valid stored value, a
  non-empty list of symptoms, and an exception from the vectoriser, the classifier or
  \<^verbatim>\<open>np.max\<close>.
\<close>

definition recompute_fails :: "env \<Rightarrow> chat_row \<Rightarrow> bool" where
  "recompute_fails env c =
     (\<not> isValid (confidence c) \<and> parse_symptoms (symptoms c) \<noteq> []
      \<and> isl (max_probability env (parse_symptoms (symptoms c))))"

section \<open>Sample data\<close>

text \<open>
  A two-symptom vocabulary and a classifier that is sure of nothing (all class
  probabilities 0), one that returns one half, and one that raises.
\<close>

definition sample_env :: "rat list \<Rightarrow> env" where
  "sample_env out =
     \<lparr>SYMPTOMS = [''fever'', ''cough''],
      PREDICTION_MODEL = (\<lambda>v. Inr (map Fin out)),
      disease_mapping = [(0, ''flu'')],
      CHAT_MODEL = (\<lambda>sys msgs. Inr ''Rest and drink water.''),
      system_prompt = (\<lambda>d s. ''You are Medibot.''),
      conn_accepts_attributes = False\<rparr>"

definition failing_env :: env where
  "failing_env =
     \<lparr>SYMPTOMS = [''fever'', ''cough''],
      PREDICTION_MODEL = (\<lambda>v. Inl (ModelError ''predict failed'')),
      disease_mapping = [(0, ''flu'')],
      CHAT_MODEL = (\<lambda>sys msgs. Inl (LLMError ''unavailable'')),
      system_prompt = (\<lambda>d s. ''You are Medibot.''),
      conn_accepts_attributes = False\<rparr>"

definition sample_row :: "nat \<Rightarrow> string option \<Rightarrow> chat_row" where
  "sample_row i conf =
     \<lparr>user_id = 1, chat_id = i, messages = MsgDict [], disease = Some ''flu'',
      symptoms = SymList [''fever''], confidence = conf, created_at = 100 + i\<rparr>"

definition sample_store :: "chat_row list \<Rightarrow> store" where
  "sample_store rows = \<lparr>has_confidence_column = True, ChatDetails_rows = rows\<rparr>"

text \<open>A log whose third turn was stored first and whose second turn is empty.\<close>

definition out_of_order_log :: history where
  "out_of_order_log =
     [(''message3'', \<lparr>query = Some ''q3'', response = Some ''r3''\<rparr>),
      (''message1'', \<lparr>query = Some ''q1'', response = Some ''r1''\<rparr>),
      (''message2'', \<lparr>query = None, response = None\<rparr>)]"

definition sample_chat :: chat_row where
  "sample_chat = (sample_row 3 (Some ''50.00%''))\<lparr>messages := MsgDict out_of_order_log\<rparr>"

text \<open>Seven chats of one user, none with a stored confidence, all with symptoms.\<close>

definition seven_chats :: store where
  "seven_chats = sample_store (map (\<lambda>i. sample_row i None) [1, 2, 3, 4, 5, 6, 7])"

section \<open>Properties of the string functions\<close>

lemma digit_val_digit_char: "d < 10 \<Longrightarrow> digit_val (digit_char d) = d"
proof -
  assume "d < 10"
  then have "d \<in> {0,1,2,3,4,5,6,7,8,9}" by auto
  then show ?thesis by (auto simp: digit_val_def digit_char_def)
qed

lemma digit_char_in_digits: "digit_char d \<in> set ''0123456789''"
  unfolding digit_char_def by (rule nth_mem) simp

lemma int_of_str_snoc: "int_of_str (s @ [c]) = 10 * int_of_str s + digit_val c"
  by (simp add: int_of_str_def)

lemma int_of_str_str_nat: "int_of_str (str_nat n) = n"
proof (induction n rule: str_nat.induct)
  case (1 n)
  show ?case
  proof (cases "n < 10")
    case True
    then show ?thesis
      by (simp add: str_nat.simps[of n] int_of_str_def digit_val_digit_char)
  next
    case False
    with 1 show ?thesis
      by (simp add: str_nat.simps[of n] int_of_str_snoc digit_val_digit_char)
  qed
qed

lemma str_nat_digits: "set (str_nat n) \<subseteq> set ''0123456789''"
proof (induction n rule: str_nat.induct)
  case (1 n)
  show ?case
  proof (cases "n < 10")
    case True
    then show ?thesis using digit_char_in_digits[of n]
      by (simp add: str_nat.simps[of n])
  next
    case False
    with 1 show ?thesis using digit_char_in_digits[of "n mod 10"]
      by (simp add: str_nat.simps[of n])
  qed
qed

lemma str_nat_nonempty: "str_nat n \<noteq> []"
  by (simp add: str_nat.simps[of n])

lemma isdigit_str_nat: "isdigit (str_nat n)"
  unfolding isdigit_def list_all_iff
  using str_nat_digits[of n] str_nat_nonempty[of n] by blast

lemma remove_message_no_m: "CHR ''m'' \<notin> set s \<Longrightarrow> remove_message s = s"
proof (induction s)
  case Nil
  show ?case by (simp add: remove_message.simps[of "[]"])
next
  case (Cons c cs)
  then have "c \<noteq> CHR ''m''" and "remove_message cs = cs"
    by auto
  then show ?case by (simp add: remove_message.simps[of "c # cs"])
qed

lemma remove_message_str_nat: "remove_message (str_nat n) = str_nat n"
proof (rule remove_message_no_m)
  have "CHR ''m'' \<notin> set ''0123456789''" by simp
  with str_nat_digits[of n] show "CHR ''m'' \<notin> set (str_nat n)" by blast
qed

lemma remove_message_message_key: "remove_message (message_key n) = str_nat n"
  unfolding message_key_def by (subst remove_message.simps) (simp add: remove_message_str_nat)

lemma inj_str_nat: "str_nat a = str_nat b \<Longrightarrow> a = b"
  by (metis int_of_str_str_nat)

lemma inj_message_key: "message_key a = message_key b \<Longrightarrow> a = b"
  by (simp add: message_key_def inj_str_nat)

section \<open>chat_history builds message1 to messageN\<close>

lemma zip_longest_length: "length (zip_longest xs ys) = max (length xs) (length ys)"
  by (induction xs ys rule: zip_longest.induct) auto

lemma zip_longest_nth:
  "i < max (length xs) (length ys) \<Longrightarrow> zip_longest xs ys ! i = (nth_opt xs i, nth_opt ys i)"
proof (induction xs ys arbitrary: i rule: zip_longest.induct)
  case 1
  then show ?case by simp
next
  case (2 x xs)
  then show ?case by (cases i) (auto simp: nth_opt_def)
next
  case (3 y ys)
  then show ?case by (cases i) (auto simp: nth_opt_def)
next
  case (4 x xs y ys)
  then show ?case by (cases i) (auto simp: nth_opt_def)
qed

lemma dict_set_fresh: "k \<notin> set (map fst d) \<Longrightarrow> dict_set d k v = d @ [(k, v)]"
  by (simp add: dict_set_def)

text \<open>Every key the loop writes is new, so each assignment appends.\<close>

lemma chat_history_fold:
  "set (map fst acc) \<subseteq> message_key ` {..n} \<Longrightarrow>
   foldl (\<lambda>messages (i, (q, r)). dict_set messages (message_key (i + 1)) \<lparr>query = q, response = r\<rparr>)
     acc (enumerate n xs)
   = acc @ map (\<lambda>(i, (q, r)). (message_key (i + 1), \<lparr>query = q, response = r\<rparr>)) (enumerate n xs)"
proof (induction xs arbitrary: n acc)
  case Nil
  show ?case by simp
next
  case (Cons x xs)
  obtain q r where x: "x = (q, r)" by (cases x)
  have fresh: "message_key (n + 1) \<notin> set (map fst acc)"
  proof
    assume "message_key (n + 1) \<in> set (map fst acc)"
    with Cons.prems obtain j where "j \<le> n" and "message_key (n + 1) = message_key j"
      by blast
    then show False using inj_message_key[of "n + 1" j] by simp
  qed
  let ?acc = "acc @ [(message_key (n + 1), \<lparr>query = q, response = r\<rparr>)]"
  have "set (map fst ?acc) \<subseteq> message_key ` {..Suc n}"
    using Cons.prems by auto
  from Cons.IH[OF this] fresh show ?case
    by (simp add: x dict_set_fresh)
qed

lemma chat_history_eq:
  "chat_history qs rs =
     map (\<lambda>i. (message_key (i + 1), \<lparr>query = nth_opt qs i, response = nth_opt rs i\<rparr>))
       [0..<max (length qs) (length rs)]"
proof -
  have "chat_history qs rs =
      map (\<lambda>(i, (q, r)). (message_key (i + 1), \<lparr>query = q, response = r\<rparr>))
        (enumerate 0 (zip_longest qs rs))"
    unfolding chat_history_def using chat_history_fold[of "[]" 0] by simp
  also have "\<dots> = map (\<lambda>i. (message_key (i + 1), \<lparr>query = nth_opt qs i, response = nth_opt rs i\<rparr>))
       [0..<max (length qs) (length rs)]"
    by (rule nth_equalityI)
       (simp_all add: zip_longest_length nth_enumerate_eq zip_longest_nth)
  finally show ?thesis .
qed

text \<open>
  Claim C10. For all lists \<open>queries\<close> and \<open>responses\<close>, \<open>chat_history\<close> returns a dict
  of exactly max(|queries|, |responses|) entries, with the pairwise distinct keys
  message1 to messageN in this order; the entry of messageI holds the I-th query and
  the I-th response, each None past the end of its list.
\<close>

theorem chat_history_entries:
  "length (chat_history queries responses) = max (length queries) (length responses)
   \<and> distinct (map fst (chat_history queries responses))
   \<and> chat_history queries responses =
       map (\<lambda>i. (message_key (i + 1), \<lparr>query = nth_opt queries i, response = nth_opt responses i\<rparr>))
         [0..<max (length queries) (length responses)]"
proof -
  have "distinct (map (\<lambda>i. message_key (i + 1)) [0..<max (length queries) (length responses)])"
    by (auto simp: distinct_map intro!: inj_onI dest: inj_message_key)
  then show ?thesis
    by (simp add: chat_history_eq comp_def)
qed

section \<open>The vectoriser is one-hot\<close>

lemma set_column_map:
  "set_column cols s (map g cols) = map (\<lambda>c. if c = s then 1 else g c) cols"
  by (induction cols) (auto simp: set_column_def)

lemma create_input_vector_fold:
  "foldl (\<lambda>df sy. if sy \<in> set V then set_column V sy df else df)
      (map (\<lambda>c. if c \<in> A then 1 else 0) V) sel
   = map (\<lambda>c. if c \<in> A \<union> set sel then 1 else (0::nat)) V"
proof (induction sel arbitrary: A)
  case Nil
  show ?case by simp
next
  case (Cons s sel)
  have step: "(if s \<in> set V then set_column V s (map (\<lambda>c. if c \<in> A then 1 else 0) V)
               else map (\<lambda>c. if c \<in> A then 1 else 0) V)
              = map (\<lambda>c. if c \<in> insert s A then 1 else (0::nat)) V"
    by (auto simp: set_column_map)
  show ?case
    by (simp only: foldl_Cons step Cons.IH) simp
qed

lemma create_input_vector_eq:
  "create_input_vector V sel = map (\<lambda>c. if c \<in> set sel then 1 else 0) V"
proof -
  have "replicate (length V) (0::nat) = map (\<lambda>c. if c \<in> {} then 1 else 0) V"
    by (simp add: map_replicate_const)
  then show ?thesis
    unfolding create_input_vector_def using create_input_vector_fold[of V "{}" sel] by simp
qed

lemma count_ones:
  "count_list (map (\<lambda>c. if c \<in> S then 1 else (0::nat)) V) (Suc 0) = length (filter (\<lambda>c. c \<in> S) V)"
  by (induction V) auto

text \<open>
  Claim C7. Over a vocabulary of pairwise distinct names, the vector has the length of
  the vocabulary and holds 1 exactly at the indices of the selected names, 0 elsewhere;
  when the selected names all belong to the vocabulary, the number of ones is the
  number of distinct selected names; names outside the vocabulary change nothing.
\<close>

theorem create_input_vector_one_hot:
  assumes "distinct vocab"
  shows "length (create_input_vector vocab selected) = length vocab
    \<and> (\<forall>i < length vocab.
          create_input_vector vocab selected ! i = (if vocab ! i \<in> set selected then 1 else 0))
    \<and> (set selected \<subseteq> set vocab \<longrightarrow>
          count_list (create_input_vector vocab selected) 1 = card (set selected))
    \<and> create_input_vector vocab selected =
        create_input_vector vocab (filter (\<lambda>s. s \<in> set vocab) selected)"
proof -
  have "card (set selected) = length (filter (\<lambda>c. c \<in> set selected) vocab)"
    if "set selected \<subseteq> set vocab"
  proof -
    have "set (filter (\<lambda>c. c \<in> set selected) vocab) = set selected"
      using that by auto
    moreover have "distinct (filter (\<lambda>c. c \<in> set selected) vocab)"
      using assms by simp
    ultimately show ?thesis by (metis distinct_card)
  qed
  moreover have "map (\<lambda>c. if c \<in> set selected then 1 else (0::nat)) vocab
      = map (\<lambda>c. if c \<in> set (filter (\<lambda>s. s \<in> set vocab) selected) then 1 else 0) vocab"
    by (rule map_cong) auto
  ultimately show ?thesis
    by (simp add: create_input_vector_eq count_ones)
qed

theorem create_input_vector_one_hot_witness:
  "distinct [''fever'', ''cough'', ''rash'']
   \<and> set [''rash'', ''fever''] \<subseteq> set [''fever'', ''cough'', ''rash'']
   \<and> create_input_vector [''fever'', ''cough'', ''rash''] [''rash'', ''fever''] = [1, 0, 1]
   \<and> create_input_vector [''fever'', ''cough'', ''rash''] [''rash'', ''fever''] ! 2 = 1
   \<and> create_input_vector [''fever'', ''cough'', ''rash''] [''rash'', ''fever''] ! 1 = 0
   \<and> count_list (create_input_vector [''fever'', ''cough'', ''rash''] [''rash'', ''fever'']) 1 = 2
   \<and> create_input_vector [''fever'', ''cough'', ''rash''] [''rash'', ''flu'', ''fever'']
       = create_input_vector [''fever'', ''cough'', ''rash''] [''rash'', ''fever'']"
proof -
  let ?V = "[''fever'', ''cough'', ''rash'']"
  have d: "distinct ?V" by simp
  have v: "create_input_vector ?V [''rash'', ''fever''] = [1, 0, 1]"
    by (simp add: create_input_vector_def set_column_def)
  have s: "set [''rash'', ''fever''] \<subseteq> set ?V" by simp
  have c: "card (set [''rash'', ''fever'']) = 2" by simp
  note t = create_input_vector_one_hot[OF d, of "[''rash'', ''fever'']"]
  from t s have n: "count_list (create_input_vector ?V [''rash'', ''fever'']) 1
        = card (set [''rash'', ''fever''])"
    by blast
  from t have "\<forall>i<length ?V. create_input_vector ?V [''rash'', ''fever''] ! i
       = (if ?V ! i \<in> set [''rash'', ''fever''] then 1 else 0)"
    by blast
  then have i2: "create_input_vector ?V [''rash'', ''fever''] ! 2 = 1"
    and i1: "create_input_vector ?V [''rash'', ''fever''] ! 1 = 0"
    by simp_all
  have f: "filter (\<lambda>s. s \<in> set ?V) [''rash'', ''flu'', ''fever''] = [''rash'', ''fever'']"
    by simp
  from create_input_vector_one_hot[OF d, of "[''rash'', ''flu'', ''fever'']"]
  have u: "create_input_vector ?V [''rash'', ''flu'', ''fever'']
       = create_input_vector ?V [''rash'', ''fever'']"
    unfolding f by blast
  from d s v i2 i1 n c u show ?thesis by simp
qed

section \<open>Rounding to binary64 stays close\<close>

lemma round_half_even_ge: "of_int k \<le> x \<Longrightarrow> k \<le> round_half_even x"
proof -
  assume "of_int k \<le> x"
  then have "k \<le> \<lfloor>x\<rfloor>" by (simp add: le_floor_iff)
  then show ?thesis by (simp add: round_half_even_def Let_def)
qed

lemma round_half_even_lower: "x - 1 / 2 \<le> of_int (round_half_even x)"
proof -
  have f: "of_int \<lfloor>x\<rfloor> \<le> x" and g: "x < of_int \<lfloor>x\<rfloor> + 1" by linarith+
  show ?thesis
    using f g by (auto simp: round_half_even_def Let_def)
qed

lemma round_half_even_ten: "19 / 2 \<le> y \<Longrightarrow> 10 \<le> round_half_even y"
proof -
  assume "19 / 2 \<le> y"
  then have "19 / 2 - 1 / 2 \<le> y - 1 / 2" by simp
  also have "\<dots> \<le> of_int (round_half_even y)" by (rule round_half_even_lower)
  finally have "(9 :: rat) \<le> of_int (round_half_even y)" by simp
  then have n: "9 \<le> round_half_even y" by linarith
  have "round_half_even y \<noteq> 9"
  proof
    assume e: "round_half_even y = 9"
    have c: "\<lfloor>y\<rfloor> = 9 \<or> \<lfloor>y\<rfloor> = 8"
      using e by (auto simp: round_half_even_def Let_def split: if_splits)
    have "9 \<le> \<lfloor>y\<rfloor>" using \<open>19 / 2 \<le> y\<close> by (simp add: le_floor_iff)
    with c have fl: "\<lfloor>y\<rfloor> = 9" by simp
    with e \<open>19 / 2 \<le> y\<close> show False
      by (auto simp: round_half_even_def Let_def split: if_splits)
  qed
  with n show ?thesis by simp
qed

lemma bitlen_pos: "0 < n \<Longrightarrow> 1 \<le> bitlen n"
  by (auto simp: bitlen_alt_def)

lemma floor_log2_le:
  assumes "0 < x"
  shows "2 powi floor_log2 x \<le> x"
proof -
  obtain n d where q: "quotient_of x = (n, d)" by (cases "quotient_of x")
  have d: "0 < d" using q by (rule quotient_of_denom_pos)
  have x: "x = of_int n / of_int d" using q by (rule quotient_of_div)
  have n: "0 < n" using assms d unfolding x by (simp add: zero_less_divide_iff)
  let ?k = "bitlen n - bitlen d"
  show ?thesis
  proof (cases "2 powi ?k \<le> x")
    case True
    then show ?thesis using q by (simp add: floor_log2_def)
  next
    case False
    then have fl: "floor_log2 x = ?k - 1" using q by (simp add: floor_log2_def)
    have bn: "1 \<le> bitlen n" using n by (rule bitlen_pos)
    have bd: "0 \<le> bitlen d" by (rule bitlen_nonneg)
    have "2 ^ nat (bitlen n - 1) \<le> n" using bitlen_bounds[OF n] by simp
    then have "(of_int (2 ^ nat (bitlen n - 1)) :: rat) \<le> of_int n" by (simp only: of_int_le_iff)
    then have lo: "(2 :: rat) powi (bitlen n - 1) \<le> of_int n"
      using bn by (simp add: power_int_nonneg_exp)
    have "d < 2 ^ nat (bitlen d)" using bitlen_bounds[OF d] by simp
    then have "(of_int d :: rat) < of_int (2 ^ nat (bitlen d))" by (simp only: of_int_less_iff)
    then have hi: "(of_int d :: rat) \<le> 2 powi bitlen d"
      using bd by (simp add: power_int_nonneg_exp)
    have "(2 :: rat) powi (?k - 1) = 2 powi ((bitlen n - 1) - bitlen d)" by (simp add: algebra_simps)
    also have "\<dots> = 2 powi (bitlen n - 1) / 2 powi bitlen d" by (rule power_int_diff) simp
    also have "\<dots> \<le> of_int n / of_int d"
      using lo hi d n by (intro frac_le) simp_all
    finally have "(2 :: rat) powi (?k - 1) \<le> x" by (simp only: x[symmetric])
    then show ?thesis by (simp only: fl)
  qed
qed

lemma round_binary64_lower:
  assumes "99 / 1000 \<le> a" and "round_binary64 a = Fin r"
  shows "95 / 1000 \<le> r"
proof -
  define e where "e = max (floor_log2 a) (- 1022)"
  define q where "q = e - 52"
  define m where "m = round_half_even (a / 2 powi q)"
  have pos: "0 < a" using assms(1) by simp
  have r: "r = of_int m * 2 powi q"
    using assms(2) pos
    by (simp add: round_binary64_def Let_def e_def q_def m_def split: if_splits)
  have p: "(0 :: rat) < 2 powi q" by simp
  have "a / 2 powi q - 1 / 2 \<le> of_int m" unfolding m_def by (rule round_half_even_lower)
  then have "(a / 2 powi q - 1 / 2) * 2 powi q \<le> of_int m * 2 powi q"
    using p by (simp only: mult_le_cancel_right_pos)
  moreover have "(a / 2 powi q - 1 / 2) * 2 powi q = a - 2 powi q / 2"
  proof -
    define P :: rat where "P = 2 powi q"
    have "0 < P" unfolding P_def by simp
    then have "(a / P - 1 / 2) * P = a - P / 2" by (simp add: field_simps)
    then show ?thesis unfolding P_def .
  qed
  ultimately have lower: "a - 2 powi q / 2 \<le> r"
    unfolding r by simp
  have small: "(2 :: rat) powi q \<le> a / 16 \<or> (2 :: rat) powi q \<le> 1 / 1024"
  proof (cases "e = floor_log2 a")
    case True
    have "(2 :: rat) powi q = 2 powi e / 2 powi 52"
      unfolding q_def by (rule power_int_diff) simp
    also have "\<dots> \<le> a / 2 powi 52"
      using floor_log2_le[OF pos] True by (simp add: divide_right_mono)
    also have "\<dots> \<le> a / 16" using pos by (simp add: field_simps)
    finally show ?thesis by simp
  next
    case False
    then have "e = - 1022" unfolding e_def by (simp add: max_def split: if_splits)
    then have "q \<le> - 10" unfolding q_def by simp
    then have "(2 :: rat) powi q \<le> 2 powi (- 10)" by (intro power_int_increasing) simp_all
    also have "\<dots> = 1 / 1024" by (simp add: power_int_minus_divide)
    finally show ?thesis by simp
  qed
  from small lower assms(1) show ?thesis by (elim disjE) linarith+
qed

section \<open>The percentage format never prints 0.00% above the floor\<close>

lemma digit_char_zero: "d < 10 \<Longrightarrow> digit_char d = CHR ''0'' \<Longrightarrow> d = 0"
proof -
  assume d: "d < 10" and z: "digit_char d = CHR ''0''"
  have "digit_val (digit_char d) = d" using d by (rule digit_val_digit_char)
  with z show ?thesis by (simp add: digit_val_def)
qed

lemma str_nat_zero: "str_nat n = ''0'' \<Longrightarrow> n = 0"
proof -
  assume "str_nat n = ''0''"
  moreover have "str_nat 0 = ''0''" by (simp add: str_nat.simps[of 0] digit_char_def)
  ultimately show ?thesis using inj_str_nat[of n 0] by simp
qed

lemma format_fixed2_not_zero:
  assumes "95 / 1000 \<le> x"
  shows "format_fixed2 x \<noteq> ''0.00''"
proof
  assume eq: "format_fixed2 x = ''0.00''"
  define n where "n = nat (round_half_even (\<bar>x\<bar> * 100))"
  have "19 / 2 \<le> \<bar>x\<bar> * 100" using assms by simp
  then have "10 \<le> round_half_even (\<bar>x\<bar> * 100)" by (rule round_half_even_ten)
  then have n10: "10 \<le> n" by (simp add: n_def)
  have "\<not> x < 0" using assms by simp
  then have "str_nat (n div 100) @ (''.'' @ [digit_char (n mod 100 div 10), digit_char (n mod 10)])
      = ''0'' @ ''.00''"
    using eq by (simp add: format_fixed2_def n_def Let_def)
  then have a: "str_nat (n div 100) = ''0''"
    and b: "''.'' @ [digit_char (n mod 100 div 10), digit_char (n mod 10)] = ''.00''"
    by (simp_all add: append_eq_append_conv)
  from a have "n div 100 = 0" by (rule str_nat_zero)
  then have "n < 100" by (simp add: div_eq_0_iff)
  then have m: "n mod 100 = n" by simp
  from b have "digit_char (n mod 100 div 10) = CHR ''0''" by simp
  then have "n mod 100 div 10 = 0"
    using digit_char_zero[of "n mod 100 div 10"] \<open>n < 100\<close> by simp
  with m have "n div 10 = 0" by simp
  then have "n < 10" by (simp add: div_eq_0_iff)
  with n10 show False by simp
qed

lemma format_fixed2_length: "4 \<le> length (format_fixed2 x)"
  using str_nat_nonempty[of "nat (round_half_even (\<bar>x\<bar> * 100)) div 100"]
  by (cases "str_nat (nat (round_half_even (\<bar>x\<bar> * 100)) div 100)")
     (simp_all add: format_fixed2_def Let_def)

lemma format_pct_length: "4 \<le> length (format_pct p)"
  using format_fixed2_length
  by (cases "times100 p") (simp_all add: format_pct_def le_Suc_eq)

text \<open>The literal 0.001 is the float 1152921504606847 / 2^60, and it prints as 0.10%.\<close>

lemma lit_0_001_value: "lit_0_001 = Fin (1152921504606847 / 1152921504606846976)"
  by code_simp

lemma format_pct_floor_value: "format_pct lit_0_001 = ''0.10%''"
  by code_simp

lemma format_pct_above_floor:
  assumes "float_gt p lit_0_001"
  shows "format_pct p \<noteq> ''0.00%''"
proof (cases p)
  case (Fin x)
  with assms have x: "1152921504606847 / 1152921504606846976 < x"
    by (simp add: float_gt_def lit_0_001_value)
  then have a: "99 / 1000 \<le> x * 100" by simp
  show ?thesis
  proof (cases "round_binary64 (x * 100)")
    case (Fin r)
    with a have "95 / 1000 \<le> r" by (rule round_binary64_lower)
    then have "format_fixed2 r \<noteq> ''0.00''" by (rule format_fixed2_not_zero)
    with Fin \<open>p = Fin x\<close> show ?thesis by (simp add: format_pct_def times100_def)
  qed (simp_all add: \<open>p = Fin x\<close> format_pct_def times100_def)
qed (simp_all add: format_pct_def times100_def)

lemma format_pct_clamped_not_zero: "format_pct (py_max lit_0_001 p) \<noteq> ''0.00%''"
proof (cases "float_gt p lit_0_001")
  case True
  then show ?thesis by (simp add: py_max_def format_pct_above_floor)
next
  case False
  then show ?thesis by (simp add: py_max_def format_pct_floor_value)
qed

lemma format_pct_clamped_floor:
  "\<not> float_gt p lit_0_001 \<Longrightarrow> format_pct (py_max lit_0_001 p) = ''0.10%''"
  by (simp add: py_max_def format_pct_floor_value)

lemma py_float_zero: "py_float (Fin 0) = Fin 0"
  by (simp add: py_float_def round_binary64_def)

lemma not_gt_floor:
  "\<not> float_gt (Fin 0) lit_0_001" "\<not> float_gt NaN lit_0_001" "\<not> float_gt NegInf lit_0_001"
  by (simp_all add: float_gt_def lit_0_001_value)

text \<open>
  Two products worked out: 0.5 and 0.00165. The second is not a tie of the decimal
  rounding; the binary64 product is 0.165000000000000007771561172376, so it prints as 0.17.
\<close>

lemma round_binary64_eval:
  assumes "0 < x" and "floor_log2 x = e" and "- 1022 \<le> e"
    and "round_half_even (x / 2 powi (e - 52)) = m"
    and "of_int m * 2 powi (e - 52) = r" and "r < 2 powi 1024"
  shows "round_binary64 x = Fin r"
proof -
  have "max (floor_log2 x) (- 1022) = e" using assms(2,3) by simp
  with assms show ?thesis by (simp add: round_binary64_def Let_def)
qed

lemma format_pct_half: "format_pct (py_max lit_0_001 (py_float (Fin (1 / 2)))) = ''50.00%''"
proof -
  have a: "round_binary64 (1 / 2) = Fin (1 / 2)" by code_simp
  have b: "round_binary64 (1 / 2 * 100) = Fin 50" by code_simp
  have c: "format_fixed2 50 = ''50.00''" by code_simp
  have "float_gt (Fin (1 / 2)) lit_0_001" by (simp add: float_gt_def lit_0_001_value)
  then have "py_max lit_0_001 (Fin (1 / 2)) = Fin (1 / 2)" by (simp add: py_max_def)
  then show ?thesis using b c by (simp add: py_float_def a format_pct_def times100_def)
qed

lemma format_pct_165: "format_pct (py_max lit_0_001 (py_float (Fin (33 / 20000)))) = ''0.17%''"
proof -
  let ?d = "3804640965202595 / 2305843009213693952 :: rat"
  have a: "round_binary64 (33 / 20000) = Fin ?d" by code_simp
  have b: "round_binary64 (?d * 100) = Fin (5944751508129055 / 36028797018963968)"
  proof (rule round_binary64_eval[where e = "- 3" and m = 5944751508129055])
    show "0 < ?d * 100" by simp
    show "floor_log2 (?d * 100) = - 3" by code_simp
    show "- 1022 \<le> (- 3 :: int)" by simp
    show "round_half_even (?d * 100 / 2 powi (- 3 - 52)) = 5944751508129055" by code_simp
    show "of_int 5944751508129055 * 2 powi (- 3 - 52) = (5944751508129055 / 36028797018963968 :: rat)"
      by code_simp
    show "(5944751508129055 / 36028797018963968 :: rat) < 2 powi 1024" by code_simp
  qed
  have c: "format_fixed2 (5944751508129055 / 36028797018963968) = ''0.17''" by code_simp
  have "float_gt (Fin ?d) lit_0_001" by (simp add: float_gt_def lit_0_001_value)
  then have "py_max lit_0_001 (Fin ?d) = Fin ?d" by (simp add: py_max_def)
  then show ?thesis using b c by (simp add: py_float_def a format_pct_def times100_def)
qed

section \<open>Every recomputation floors the probability\<close>

lemma update_confidence_sql_row:
  assumes "r \<in> set (ChatDetails_rows (update_confidence_sql v cid s))" and "chat_id r = cid"
  shows "confidence r = Some v"
proof -
  from assms(1) obtain r0 where r0: "r0 \<in> set (ChatDetails_rows s)"
    and r: "r = (if chat_id r0 = cid then r0\<lparr>confidence := Some v\<rparr> else r0)"
    unfolding update_confidence_sql_def by auto
  show ?thesis
  proof (cases "chat_id r0 = cid")
    case True
    with r show ?thesis by simp
  next
    case False
    with r assms(2) show ?thesis by simp
  qed
qed

lemma store_confidence_row:
  "r \<in> set (ChatDetails_rows (store_confidence v cid s)) \<Longrightarrow> chat_id r = cid \<Longrightarrow> confidence r = Some v"
  unfolding store_confidence_def by (rule update_confidence_sql_row)

lemma create_chat_row:
  "create_chat uid t m d syms conf s = (cid, s') \<Longrightarrow>
     ChatDetails_rows s' \<noteq> [] \<and> chat_id (last (ChatDetails_rows s')) = cid
     \<and> confidence (last (ChatDetails_rows s')) = conf"
  by (auto simp: create_chat_def Let_def)

lemma predict_success:
  assumes "predict env s now uid syms = (Inr r, s')"
    and "PREDICTION_MODEL env (create_input_vector (SYMPTOMS env) syms) = Inr pred"
    and "np_max pred = Inr prob"
  shows "pr_confidence r = format_pct (py_max lit_0_001 (py_float prob))
    \<and> ChatDetails_rows s' \<noteq> [] \<and> chat_id (last (ChatDetails_rows s')) = pr_chat_id r
    \<and> confidence (last (ChatDetails_rows s')) = Some (pr_confidence r)"
proof -
  from assms(1) have t: "predict_try env s now uid syms = (Inr r, s')"
    by (auto simp: predict_def split: prod.splits sum.splits if_splits)
  then obtain cls dis where
    "create_chat uid now [] (Some dis) syms (Some (format_pct (py_max lit_0_001 (py_float prob)))) s = (pr_chat_id r, s')"
    and "pr_confidence r = format_pct (py_max lit_0_001 (py_float prob))"
    using assms(2,3)
    by (auto simp: predict_try_def Let_def split: if_splits sum.splits prod.splits)
  then show ?thesis using create_chat_row by metis
qed

lemma update_confidence_success:
  assumes "update_confidence env s uid cid = (Inr u, s')"
  shows "\<exists>chat syms. find (\<lambda>r. user_id r = uid \<and> chat_id r = cid) (ChatDetails_rows s) = Some chat
      \<and> symptoms chat = SymList syms \<and> syms \<noteq> []
      \<and> (\<forall>pred prob. PREDICTION_MODEL env (create_input_vector (SYMPTOMS env) syms) = Inr pred
            \<and> np_max pred = Inr prob \<longrightarrow>
            uc_confidence u = format_pct (py_max lit_0_001 (py_float prob))
            \<and> s' = store_confidence (uc_confidence u) cid s)"
proof -
  from assms have t: "update_confidence_try env s uid cid = (Inr u, s')"
    by (auto simp: update_confidence_def split: prod.splits sum.splits exn.splits)
  then show ?thesis
    by (auto simp: update_confidence_try_def Let_def
        split: option.splits symptoms_col.splits if_splits sum.splits)
qed

lemma compute_and_store_success:
  assumes "compute_and_store env c syms st = (Inr v, st')"
    and "PREDICTION_MODEL env (create_input_vector (SYMPTOMS env) syms) = Inr pred"
    and "np_max pred = Inr prob"
  shows "v = Some (format_pct (py_max lit_0_001 (py_float prob)))
    \<and> db st' = store_confidence (format_pct (py_max lit_0_001 (py_float prob))) (chat_id c) (db st)"
  using assms by (auto simp: compute_and_store_def Let_def split: sum.splits)

text \<open>
  Claim C6. Let \<open>prob\<close> be the largest class probability the classifier returns for
  the symptom vector. Then the confidence returned by a successful \<open>predict\<close>, by a
  successful \<open>update_confidence\<close> and by the recomputation of \<open>chat_hist\<close> is the
  format of max(0.001, float(prob)), and this same string is what is written to the
  row; it is never 0.00%, and it is 0.10% whenever float(prob) > 0.001 is false, in
  particular when prob is 0.0.
\<close>

theorem confidence_floor:
  assumes "PREDICTION_MODEL env (create_input_vector (SYMPTOMS env) syms) = Inr pred"
    and "np_max pred = Inr prob"
  shows "(\<forall>r s'. predict env s now uid syms = (Inr r, s') \<longrightarrow>
            pr_confidence r = format_pct (py_max lit_0_001 (py_float prob))
            \<and> chat_id (last (ChatDetails_rows s')) = pr_chat_id r
            \<and> confidence (last (ChatDetails_rows s')) = Some (pr_confidence r))
       \<and> (\<forall>chat u s'. find (\<lambda>r. user_id r = uid \<and> chat_id r = cid) (ChatDetails_rows s) = Some chat
            \<and> symptoms chat = SymList syms
            \<and> update_confidence env s uid cid = (Inr u, s') \<longrightarrow>
            uc_confidence u = format_pct (py_max lit_0_001 (py_float prob))
            \<and> s' = store_confidence (uc_confidence u) cid s)
       \<and> (\<forall>c st v st'. compute_and_store env c syms st = (Inr v, st') \<longrightarrow>
            v = Some (format_pct (py_max lit_0_001 (py_float prob)))
            \<and> db st' = store_confidence (format_pct (py_max lit_0_001 (py_float prob))) (chat_id c) (db st))
       \<and> format_pct (py_max lit_0_001 (py_float prob)) \<noteq> ''0.00%''
       \<and> (\<not> float_gt (py_float prob) lit_0_001 \<longrightarrow>
            format_pct (py_max lit_0_001 (py_float prob)) = ''0.10%'')
       \<and> (prob = Fin 0 \<longrightarrow> format_pct (py_max lit_0_001 (py_float prob)) = ''0.10%'')"
proof (intro conjI allI impI)
  fix r s'
  assume "predict env s now uid syms = (Inr r, s')"
  from predict_success[OF this assms]
  show "pr_confidence r = format_pct (py_max lit_0_001 (py_float prob))"
    and "chat_id (last (ChatDetails_rows s')) = pr_chat_id r"
    and "confidence (last (ChatDetails_rows s')) = Some (pr_confidence r)"
    by simp_all
next
  fix chat u s'
  assume a: "find (\<lambda>r. user_id r = uid \<and> chat_id r = cid) (ChatDetails_rows s) = Some chat
            \<and> symptoms chat = SymList syms
            \<and> update_confidence env s uid cid = (Inr u, s')"
  then have "update_confidence env s uid cid = (Inr u, s')" by simp
  from update_confidence_success[OF this] a assms
  show "uc_confidence u = format_pct (py_max lit_0_001 (py_float prob))"
    and "s' = store_confidence (uc_confidence u) cid s"
    by auto
next
  fix c st v st'
  assume "compute_and_store env c syms st = (Inr v, st')"
  from compute_and_store_success[OF this assms]
  show "v = Some (format_pct (py_max lit_0_001 (py_float prob)))"
    and "db st' = store_confidence (format_pct (py_max lit_0_001 (py_float prob))) (chat_id c) (db st)"
    by simp_all
next
  show "format_pct (py_max lit_0_001 (py_float prob)) \<noteq> ''0.00%''"
    by (rule format_pct_clamped_not_zero)
next
  assume "\<not> float_gt (py_float prob) lit_0_001"
  then show "format_pct (py_max lit_0_001 (py_float prob)) = ''0.10%''"
    by (rule format_pct_clamped_floor)
next
  assume "prob = Fin 0"
  then show "format_pct (py_max lit_0_001 (py_float prob)) = ''0.10%''"
    by (simp add: py_float_zero not_gt_floor format_pct_clamped_floor)
qed

lemma clamp_zero:
  "format_pct (py_max lit_0_001 (py_float (Fin 0))) = ''0.10%''"
  "format_pct (py_max lit_0_001 (Fin 0)) = ''0.10%''"
  by (simp_all add: py_float_zero not_gt_floor format_pct_clamped_floor)

lemma sample_predict_zero:
  "predict (sample_env [0, 0]) (sample_store []) 5 1 [''fever'']
   = (Inr \<lparr>pr_disease = ''flu'', pr_confidence = ''0.10%'', pr_symptoms_count = 1, pr_chat_id = 1\<rparr>,
      sample_store [\<lparr>user_id = 1, chat_id = 1, messages = MsgDict [], disease = Some ''flu'',
                     symptoms = SymList [''fever''], confidence = Some ''0.10%'', created_at = 5\<rparr>])"
  by (simp add: predict_def predict_try_def sample_env_def sample_store_def create_input_vector_def
      set_column_def np_argmax_def np_max_def float_gt_def lookup_disease_def create_chat_def
      clamp_zero Let_def)

lemma sample_predict_165:
  "fst (predict (sample_env [33 / 20000]) (sample_store []) 5 1 [''fever''])
   = Inr \<lparr>pr_disease = ''flu'', pr_confidence = ''0.17%'', pr_symptoms_count = 1, pr_chat_id = 1\<rparr>"
  by (simp add: predict_def predict_try_def sample_env_def sample_store_def create_input_vector_def
      set_column_def np_argmax_def np_max_def lookup_disease_def create_chat_def
      format_pct_165 Let_def)

theorem confidence_floor_witness:
  "PREDICTION_MODEL (sample_env [0, 0])
      (create_input_vector (SYMPTOMS (sample_env [0, 0])) [''fever'']) = Inr [Fin 0, Fin 0]
   \<and> np_max [Fin 0, Fin 0] = Inr (Fin 0)
   \<and> fst (predict (sample_env [0, 0]) (sample_store []) 5 1 [''fever''])
       = Inr \<lparr>pr_disease = ''flu'', pr_confidence = ''0.10%'', pr_symptoms_count = 1, pr_chat_id = 1\<rparr>
   \<and> map confidence (ChatDetails_rows (snd (predict (sample_env [0, 0]) (sample_store []) 5 1 [''fever''])))
       = [Some ''0.10%'']
   \<and> fst (update_confidence (sample_env [0, 0]) (sample_store [sample_row 1 None]) 1 1)
       = Inr \<lparr>uc_chat_id = 1, uc_confidence = ''0.10%'', uc_message = ''Confidence updated successfully''\<rparr>
   \<and> snd (update_confidence (sample_env [0, 0]) (sample_store [sample_row 1 None]) 1 1)
       = sample_store [sample_row 1 (Some ''0.10%'')]
   \<and> fst (compute_and_store (sample_env [0, 0]) (sample_row 1 None) [''fever'']
          \<lparr>db = sample_store [sample_row 1 None], conn_compute_count = None, classifier_calls = []\<rparr>)
       = Inr (Some ''0.10%'')
   \<and> format_pct (py_max lit_0_001 (py_float (Fin 0))) = ''0.10%''
   \<and> format_pct (py_max lit_0_001 (py_float (Fin 0))) \<noteq> ''0.00%''
   \<and> np_max [Fin (33 / 20000)] = Inr (Fin (33 / 20000))
   \<and> pr_confidence (projr (fst (predict (sample_env [33 / 20000]) (sample_store []) 5 1 [''fever''])))
       = ''0.17%''"
proof -
  let ?env = "sample_env [0, 0]"
  let ?s1 = "sample_store [sample_row 1 None]"
  let ?st = "\<lparr>db = ?s1, conn_compute_count = None, classifier_calls = []\<rparr>"
  have h1: "PREDICTION_MODEL ?env (create_input_vector (SYMPTOMS ?env) [''fever'']) = Inr [Fin 0, Fin 0]"
    by (simp add: sample_env_def)
  have h2: "np_max [Fin 0, Fin 0] = Inr (Fin 0)" by (simp add: np_max_def float_gt_def)
  note t = confidence_floor[OF h1 h2]
  from t have z: "format_pct (py_max lit_0_001 (py_float (Fin 0))) = ''0.10%''"
    and nz: "format_pct (py_max lit_0_001 (py_float (Fin 0))) \<noteq> ''0.00%''"
    by simp_all
  \<comment> \<open>predict\<close>
  obtain r s' where p: "predict ?env (sample_store []) 5 1 [''fever''] = (Inr r, s')"
    using sample_predict_zero by blast
  from t[of "sample_store []" 5 1] p z
  have pc: "pr_confidence r = ''0.10%''"
    and pl: "confidence (last (ChatDetails_rows s')) = Some (pr_confidence r)"
    by auto
  have pr: "fst (predict ?env (sample_store []) 5 1 [''fever''])
       = Inr \<lparr>pr_disease = ''flu'', pr_confidence = ''0.10%'', pr_symptoms_count = 1, pr_chat_id = 1\<rparr>"
    by (simp only: sample_predict_zero fst_conv)
  have "length (ChatDetails_rows (snd (predict ?env (sample_store []) 5 1 [''fever'']))) = 1"
    unfolding sample_predict_zero snd_conv by (simp add: sample_store_def)
  then have "ChatDetails_rows s' = [last (ChatDetails_rows s')]"
    unfolding p snd_conv by (cases "ChatDetails_rows s'") simp_all
  with pl pc have ps: "map confidence (ChatDetails_rows (snd (predict ?env (sample_store []) 5 1 [''fever''])))
       = [Some ''0.10%'']"
    unfolding p snd_conv by (metis list.simps(8,9))
  \<comment> \<open>update_confidence\<close>
  have f: "find (\<lambda>r. user_id r = 1 \<and> chat_id r = 1) (ChatDetails_rows ?s1) = Some (sample_row 1 None)"
    "symptoms (sample_row 1 None) = SymList [''fever'']"
    by (simp_all add: sample_store_def sample_row_def)
  obtain u s2 where uc: "update_confidence ?env ?s1 1 1 = (Inr u, s2)"
    and um: "uc_chat_id u = 1" "uc_message u = ''Confidence updated successfully''"
    by (simp add: update_confidence_def update_confidence_try_def sample_store_def sample_row_def
        sample_env_def np_max_def float_gt_def Let_def)
  from t[of ?s1 _ 1 1] f uc z
  have u1: "uc_confidence u = ''0.10%''" and u2: "s2 = store_confidence (uc_confidence u) 1 ?s1"
    by auto
  from u1 um have ur: "fst (update_confidence ?env ?s1 1 1)
       = Inr \<lparr>uc_chat_id = 1, uc_confidence = ''0.10%'', uc_message = ''Confidence updated successfully''\<rparr>"
    unfolding uc by simp
  from u1 u2 have us: "snd (update_confidence ?env ?s1 1 1) = sample_store [sample_row 1 (Some ''0.10%'')]"
    unfolding uc
    by (simp add: store_confidence_def update_confidence_sql_def sample_store_def sample_row_def)
  \<comment> \<open>chat_hist\<close>
  obtain v st' where cs: "compute_and_store ?env (sample_row 1 None) [''fever''] ?st = (Inr v, st')"
    by (simp add: compute_and_store_def sample_env_def np_max_def float_gt_def Let_def)
  from t[of ?s1 0 0 0] cs have "v = Some (format_pct (py_max lit_0_001 (py_float (Fin 0))))" by blast
  with z have "v = Some ''0.10%''" by simp
  with cs have cr: "fst (compute_and_store ?env (sample_row 1 None) [''fever''] ?st) = Inr (Some ''0.10%'')"
    by simp
  \<comment> \<open>a probability just above the floor\<close>
  let ?env2 = "sample_env [33 / 20000]"
  have g1: "PREDICTION_MODEL ?env2 (create_input_vector (SYMPTOMS ?env2) [''fever'']) = Inr [Fin (33 / 20000)]"
    by (simp add: sample_env_def)
  have g2: "np_max [Fin (33 / 20000)] = Inr (Fin (33 / 20000))" by (simp add: np_max_def)
  obtain r2 s2' where p2: "predict ?env2 (sample_store []) 5 1 [''fever''] = (Inr r2, s2')"
    using sample_predict_165 by (cases "predict ?env2 (sample_store []) 5 1 [''fever'']") auto
  from confidence_floor[OF g1 g2, of "sample_store []" 5 1] p2
  have "pr_confidence r2 = format_pct (py_max lit_0_001 (py_float (Fin (33 / 20000))))" by blast
  then have q: "pr_confidence (projr (fst (predict ?env2 (sample_store []) 5 1 [''fever'']))) = ''0.17%''"
    unfolding p2 by (simp add: format_pct_165)
  from h1 h2 pr ps ur us cr z nz g2 q show ?thesis by (intro conjI)
qed

section \<open>Replay follows the numeric keys\<close>

lemma msg_sort_key_message_key: "msg_sort_key (message_key n) = n"
  by (simp add: msg_sort_key_def remove_message_message_key isdigit_str_nat int_of_str_str_nat)

lemma sorted_keys_sorted: "sorted (map msg_sort_key (sorted_keys h))"
  by (simp add: sorted_keys_def)

lemma sorted_keys_mset: "mset (sorted_keys h) = mset (map fst h)"
  by (simp add: sorted_keys_def)

lemma filter_eq_single: "distinct zs \<Longrightarrow> k \<in> set zs \<Longrightarrow> filter (\<lambda>x. k = x) zs = [k]"
  by (induction zs) (auto simp: filter_empty_conv)

text \<open>A stable sort of two arrangements of the same keys agrees when the sort keys are distinct.\<close>

lemma sort_key_permutation:
  assumes "mset xs = mset ys" and "distinct (map f ys)"
  shows "sort_key f xs = sort_key f ys"
proof (rule properties_for_sort_key)
  show "mset (sort_key f ys) = mset xs" using assms(1) by simp
  show "sorted (map f (sort_key f ys))" by simp
  fix k assume "k \<in> set (sort_key f ys)"
  then have k: "k \<in> set ys" by simp
  have inj: "inj_on f (set ys)" and dy: "distinct ys"
    using assms(2) by (simp_all add: distinct_map)
  have sx: "set xs = set ys" using assms(1) by (rule mset_eq_setD)
  have dx: "distinct xs" using assms(1) dy by (metis mset_eq_imp_distinct_iff)
  have eq: "\<And>zs. set zs = set ys \<Longrightarrow> distinct zs \<Longrightarrow> filter (\<lambda>x. f k = f x) zs = [k]"
  proof -
    fix zs assume z: "set zs = set ys" "distinct zs"
    have "filter (\<lambda>x. f k = f x) zs = filter (\<lambda>x. k = x) zs"
      by (rule filter_cong) (use z k inj in \<open>auto dest: inj_onD\<close>)
    also have "\<dots> = [k]" using z k by (simp add: filter_eq_single)
    finally show "filter (\<lambda>x. f k = f x) zs = [k]" .
  qed
  show "filter (\<lambda>x. f k = f x) (sort_key f ys) = filter (\<lambda>x. f k = f x) xs"
    using eq[of "sort_key f ys"] eq[of xs] sx dx dy by simp
qed


lemma replay_sorted_log:
  assumes "sorted (map msg_sort_key (map fst h))" and "distinct (map fst h)"
  shows "replay h = concat (map (\<lambda>(k, m). turn_messages m) h)"
proof -
  have "sorted_keys h = map fst h"
    unfolding sorted_keys_def using assms(1) by (rule sort_key_id_if_sorted)
  moreover have "map (\<lambda>k. case map_of h k of None \<Rightarrow> [] | Some m \<Rightarrow> turn_messages m) (map fst h)
      = map (\<lambda>(k, m). turn_messages m) h"
  proof -
    have "\<And>k m. (k, m) \<in> set h \<Longrightarrow> map_of h k = Some m"
      using assms(2) by (rule map_of_is_SomeI)
    then show ?thesis by (auto simp: comp_def)
  qed
  ultimately show ?thesis by (simp only: replay_def)
qed

lemma replay_permutation:
  assumes "mset h' = mset h" and "distinct (map (msg_sort_key \<circ> fst) h)"
  shows "replay h' = replay h"
proof -
  have dk: "distinct (map msg_sort_key (map fst h))" using assms(2) by simp
  then have dh: "distinct (map fst h)"
    unfolding distinct_map[of msg_sort_key "map fst h"] by blast
  have mk: "mset (map fst h') = mset (map fst h)"
    using assms(1) by simp
  have dh': "distinct (map fst h')"
    using mset_eq_imp_distinct_iff[OF mk] dh by simp
  have "sorted_keys h' = sorted_keys h"
    unfolding sorted_keys_def using mk dk by (rule sort_key_permutation)
  moreover have "map_of h' = map_of h"
    using map_of_inject_set[OF dh' dh] mset_eq_setD[OF assms(1)] by simp
  ultimately show ?thesis by (simp add: replay_def)
qed

text \<open>
  Claim C8. The keys are visited in ascending order of their number, whatever the
  storage order: a log that holds the turns \<open>ts\<close> under the keys messageN for the
  strictly ascending numbers \<open>ns\<close>, stored in any order, is replayed as the messages
  of \<open>ts\<close> in the order of \<open>ns\<close>; and a turn that has neither a query nor a response
  adds no message.
\<close>

theorem replay_in_key_order:
  "sorted (map msg_sort_key (sorted_keys h))
   \<and> mset (sorted_keys h) = mset (map fst h)
   \<and> msg_sort_key (message_key n) = n
   \<and> (mset h = mset (zip (map message_key ns) ts) \<and> length ts = length ns
        \<and> sorted ns \<and> distinct ns \<longrightarrow>
        replay h = concat (map turn_messages ts))
   \<and> (query m = None \<and> response m = None \<longrightarrow> turn_messages m = [])"
proof (intro conjI impI)
  show "sorted (map msg_sort_key (sorted_keys h))" by (rule sorted_keys_sorted)
  show "mset (sorted_keys h) = mset (map fst h)" by (rule sorted_keys_mset)
  show "msg_sort_key (message_key n) = n" by (rule msg_sort_key_message_key)
next
  assume "query m = None \<and> response m = None"
  then show "turn_messages m = []" by (simp add: turn_messages_def)
next
  assume a: "mset h = mset (zip (map message_key ns) ts) \<and> length ts = length ns
        \<and> sorted ns \<and> distinct ns"
  let ?h0 = "zip (map message_key ns) ts"
  have len: "length (map message_key ns) = length ts" using a by simp
  have keys: "map fst ?h0 = map message_key ns" using len by (rule map_fst_zip)
  have nums: "map msg_sort_key (map fst ?h0) = ns"
    unfolding keys by (simp add: comp_def msg_sort_key_message_key)
  have d1: "distinct (map (msg_sort_key \<circ> fst) ?h0)"
    using nums a by (simp flip: map_map)
  have d2: "distinct (map fst ?h0)"
    using a keys by (simp add: distinct_map inj_on_def inj_message_key del: map_fst_zip)
  have s: "sorted (map msg_sort_key (map fst ?h0))" using nums a by simp
  have "replay h = replay ?h0" using a d1 by (intro replay_permutation) simp_all
  also have "\<dots> = concat (map (\<lambda>(k, m). turn_messages m) ?h0)"
    using s d2 by (rule replay_sorted_log)
  also have "map (\<lambda>(k, m). turn_messages m) ?h0 = map turn_messages (map snd ?h0)"
    by (simp add: case_prod_unfold)
  also have "map snd ?h0 = ts" using len by (rule map_snd_zip)
  finally show "replay h = concat (map turn_messages ts)" .
qed

theorem replay_in_key_order_witness:
  "mset out_of_order_log
     = mset (zip (map message_key [1, 2, 3])
         [\<lparr>query = Some ''q1'', response = Some ''r1''\<rparr>, \<lparr>query = None, response = None\<rparr>,
          \<lparr>query = Some ''q3'', response = Some ''r3''\<rparr>])
   \<and> sorted [1, 2, 3 :: nat] \<and> distinct [1, 2, 3 :: nat]
   \<and> replay out_of_order_log
       = [HumanMessage ''q1'', AIMessage ''r1'', HumanMessage ''q3'', AIMessage ''r3'']
   \<and> turn_messages \<lparr>query = None, response = None\<rparr> = []"
proof -
  let ?ts = "[\<lparr>query = Some ''q1'', response = Some ''r1''\<rparr>, \<lparr>query = None, response = None\<rparr>,
          \<lparr>query = Some ''q3'', response = Some ''r3''\<rparr>]"
  have k: "map message_key [1, 2, 3] = [''message1'', ''message2'', ''message3'']"
    by (simp add: message_key_def str_nat.simps digit_char_def)
  have m: "mset out_of_order_log = mset (zip (map message_key [1, 2, 3]) ?ts)"
    unfolding k by (simp add: out_of_order_log_def)
  have s: "sorted [1, 2, 3 :: nat]" and d: "distinct [1, 2, 3 :: nat]" by simp_all
  note t = replay_in_key_order[of out_of_order_log _ "[1, 2, 3]" ?ts "\<lparr>query = None, response = None\<rparr>"]
  from t m s d have "replay out_of_order_log = concat (map turn_messages ?ts)"
    by simp
  moreover from t have e: "turn_messages \<lparr>query = None, response = None\<rparr> = []"
    by simp
  ultimately have "replay out_of_order_log
       = [HumanMessage ''q1'', AIMessage ''r1'', HumanMessage ''q3'', AIMessage ''r3'']"
    by (simp add: turn_messages_def)
  with m s d e show ?thesis by (intro conjI)
qed

section \<open>A chat turn is appended under a new key, or nothing is stored\<close>

lemma next_msg_num_greater:
  assumes "k \<in> set (map fst h)" and "isdigit (remove_message k)"
  shows "int_of_str (remove_message k) < next_msg_num h"
proof -
  let ?nums = "map (\<lambda>k. int_of_str (remove_message k)) (filter (\<lambda>k. isdigit (remove_message k)) (map fst h))"
  have mem: "int_of_str (remove_message k) \<in> set ?nums" using assms by auto
  then have ne: "?nums \<noteq> []" by (metis empty_iff empty_set)
  have "h \<noteq> []" using assms(1) by auto
  then have "next_msg_num h = Max (set ?nums) + 1"
    using ne by (simp add: next_msg_num_def Let_def)
  moreover have "int_of_str (remove_message k) \<le> Max (set ?nums)"
    using mem by (intro Max_ge) simp_all
  ultimately show ?thesis by simp
qed

lemma next_key_fresh: "message_key (next_msg_num h) \<notin> set (map fst h)"
proof
  assume "message_key (next_msg_num h) \<in> set (map fst h)"
  moreover have "isdigit (remove_message (message_key (next_msg_num h)))"
    by (simp add: remove_message_message_key isdigit_str_nat)
  ultimately have "int_of_str (remove_message (message_key (next_msg_num h))) < next_msg_num h"
    by (rule next_msg_num_greater)
  then show False by (simp add: remove_message_message_key int_of_str_str_nat)
qed

lemma next_msg_num_empty: "next_msg_num [] = 1"
  by (simp add: next_msg_num_def)

lemma conversation_failure_keeps_store: "fst (conversation env s uid cid q now) = Inl e \<Longrightarrow>
   snd (conversation env s uid cid q now) = s
   \<and> (\<exists>cause. e = HTTPException 500 (Formatted ''Failed to process chat: '' cause))"
  by (auto simp: conversation_def conversation_try_def get_query_def Let_def
      split: option.splits if_splits sum.splits prod.splits)

lemma find_after_update:
  assumes "find P rows = Some r" and "\<And>x. P (f x) = P x"
  shows "find P (map (\<lambda>x. if P x then f x else x) rows) = Some (f r)"
  using assms(1)
proof (induction rows)
  case Nil
  then show ?case by simp
next
  case (Cons a rows)
  then show ?case using assms(2) by (cases "P a") simp_all
qed

lemma update_messages_sql_find:
  assumes "find (\<lambda>r. chat_id r = cid \<and> user_id r = uid) (ChatDetails_rows s) = Some row"
  shows "find (\<lambda>r. chat_id r = cid \<and> user_id r = uid) (ChatDetails_rows (update_messages_sql m cid uid s))
         = Some (row\<lparr>messages := m\<rparr>)"
  unfolding update_messages_sql_def
  using find_after_update[OF assms, of "\<lambda>r. r\<lparr>messages := m\<rparr>"] by simp

lemma sample_next_msg_num: "next_msg_num out_of_order_log = 4"
  by code_simp

text \<open>
  Claim C9. For a chat of the caller whose symptoms parse, with stored log \<open>h\<close>:
  when the LLM answers, the endpoint returns the answer and stores \<open>h\<close> extended at the
  end by the turn (query, answer) under the key messageK, where K is 1 for a log without
  numbered keys (an empty log among them), one more than the largest number otherwise,
  and larger than every number in the log; when the LLM raises, the endpoint raises the
  500 error "Failed to process chat" and the store is the one before the call. In every
  case a failed call leaves the store as it was.
\<close>

theorem conversation_turn:
  assumes "find (\<lambda>r. chat_id r = cid \<and> user_id r = uid) (ChatDetails_rows s) = Some row"
    and "symptoms row \<noteq> SymInvalidJson"
    and "h = parse_messages (messages row)"
    and "ctx = replay h @ [HumanMessage (human_message_text q (disease row))]"
    and "sys = system_prompt env (disease row) (symptoms row)"
  shows "(\<forall>resp. CHAT_MODEL env sys ctx = Inr resp \<longrightarrow>
            conversation env s uid cid q now
              = (Inr \<lparr>lr_chat_id = cid, lr_response = resp, lr_response_at = now\<rparr>,
                 update_messages_sql
                   (MsgDict (h @ [(message_key (next_msg_num h), \<lparr>query = Some q, response = Some resp\<rparr>)]))
                   cid uid s)
            \<and> find (\<lambda>r. chat_id r = cid \<and> user_id r = uid)
                  (ChatDetails_rows (snd (conversation env s uid cid q now)))
                = Some (row\<lparr>messages :=
                    MsgDict (h @ [(message_key (next_msg_num h), \<lparr>query = Some q, response = Some resp\<rparr>)])\<rparr>))
       \<and> (\<forall>e. CHAT_MODEL env sys ctx = Inl e \<longrightarrow>
            conversation env s uid cid q now
              = (Inl (HTTPException 500 (Formatted ''Failed to process chat: '' e)), s))
       \<and> (\<forall>e. fst (conversation env s uid cid q now) = Inl e \<longrightarrow>
            snd (conversation env s uid cid q now) = s)
       \<and> (\<forall>k \<in> set (map fst h). isdigit (remove_message k) \<longrightarrow>
            int_of_str (remove_message k) < next_msg_num h)
       \<and> next_msg_num h
           = (if \<exists>k \<in> set (map fst h). isdigit (remove_message k)
              then Max {int_of_str (remove_message k) | k. k \<in> set (map fst h) \<and> isdigit (remove_message k)} + 1
              else 1)
       \<and> message_key (next_msg_num h) \<notin> set (map fst h)"
proof (intro conjI allI impI ballI)
  fix resp
  assume ok: "CHAT_MODEL env sys ctx = Inr resp"
  let ?h' = "h @ [(message_key (next_msg_num h), \<lparr>query = Some q, response = Some resp\<rparr>)]"
  from ok assms show res: "conversation env s uid cid q now
      = (Inr \<lparr>lr_chat_id = cid, lr_response = resp, lr_response_at = now\<rparr>,
         update_messages_sql (MsgDict ?h') cid uid s)"
    by (simp add: conversation_def conversation_try_def get_query_def Let_def
        dict_set_fresh[OF next_key_fresh])
  show "find (\<lambda>r. chat_id r = cid \<and> user_id r = uid)
          (ChatDetails_rows (snd (conversation env s uid cid q now)))
        = Some (row\<lparr>messages := MsgDict ?h'\<rparr>)"
    unfolding res snd_conv using assms(1) by (rule update_messages_sql_find)
next
  fix e
  assume "CHAT_MODEL env sys ctx = Inl e"
  with assms show "conversation env s uid cid q now
      = (Inl (HTTPException 500 (Formatted ''Failed to process chat: '' e)), s)"
    by (simp add: conversation_def conversation_try_def get_query_def Let_def)
next
  fix e
  assume "fst (conversation env s uid cid q now) = Inl e"
  then show "snd (conversation env s uid cid q now) = s"
    using conversation_failure_keeps_store by blast
next
  fix k
  assume "k \<in> set (map fst h)" and "isdigit (remove_message k)"
  then show "int_of_str (remove_message k) < next_msg_num h"
    by (rule next_msg_num_greater)
next
  let ?nums = "map (\<lambda>k. int_of_str (remove_message k)) (filter (\<lambda>k. isdigit (remove_message k)) (map fst h))"
  have s: "set ?nums = {int_of_str (remove_message k) | k. k \<in> set (map fst h) \<and> isdigit (remove_message k)}"
    by auto
  have e: "?nums \<noteq> [] \<longleftrightarrow> (\<exists>k \<in> set (map fst h). isdigit (remove_message k))"
    by (simp add: filter_empty_conv)
  show "next_msg_num h
           = (if \<exists>k \<in> set (map fst h). isdigit (remove_message k)
              then Max {int_of_str (remove_message k) | k. k \<in> set (map fst h) \<and> isdigit (remove_message k)} + 1
              else 1)"
  proof (cases "?nums = []")
    case True
    then have "next_msg_num h = 1" by (simp add: next_msg_num_def Let_def)
    with True e show ?thesis by simp
  next
    case False
    then have "h \<noteq> []" by auto
    with False have "next_msg_num h = Max (set ?nums) + 1"
      by (simp add: next_msg_num_def Let_def)
    with False e s show ?thesis by simp
  qed
next
  show "message_key (next_msg_num h) \<notin> set (map fst h)" by (rule next_key_fresh)
qed

theorem conversation_turn_witness:
  "find (\<lambda>r. chat_id r = 3 \<and> user_id r = 1) (ChatDetails_rows (sample_store [sample_chat])) = Some sample_chat
   \<and> symptoms sample_chat \<noteq> SymInvalidJson
   \<and> conversation (sample_env []) (sample_store [sample_chat]) 1 3 ''hello'' 42
       = (Inr \<lparr>lr_chat_id = 3, lr_response = ''Rest and drink water.'', lr_response_at = 42\<rparr>,
          sample_store [sample_chat\<lparr>messages := MsgDict (out_of_order_log @
             [(''message4'', \<lparr>query = Some ''hello'', response = Some ''Rest and drink water.''\<rparr>)])\<rparr>])
   \<and> conversation failing_env (sample_store [sample_chat]) 1 3 ''hello'' 42
       = (Inl (HTTPException 500 (Formatted ''Failed to process chat: '' (LLMError ''unavailable''))),
          sample_store [sample_chat])
   \<and> snd (conversation failing_env (sample_store [sample_chat]) 1 3 ''hello'' 42)
       = sample_store [sample_chat]
   \<and> int_of_str (remove_message ''message3'') < next_msg_num out_of_order_log
   \<and> message_key (next_msg_num out_of_order_log) \<notin> set (map fst out_of_order_log)"
proof -
  have h1: "find (\<lambda>r. chat_id r = 3 \<and> user_id r = 1) (ChatDetails_rows (sample_store [sample_chat]))
      = Some sample_chat"
    by (simp add: sample_store_def sample_chat_def sample_row_def)
  have h2: "symptoms sample_chat \<noteq> SymInvalidJson"
    by (simp add: sample_chat_def sample_row_def)
  have h: "parse_messages (messages sample_chat) = out_of_order_log"
    by (simp add: sample_chat_def sample_row_def parse_messages_def)
  have k: "message_key (next_msg_num out_of_order_log) = ''message4''"
    unfolding sample_next_msg_num by (simp add: message_key_def str_nat.simps digit_char_def)
  have u: "\<And>m. update_messages_sql m 3 1 (sample_store [sample_chat])
      = sample_store [sample_chat\<lparr>messages := m\<rparr>]"
    by (simp add: update_messages_sql_def sample_store_def sample_chat_def sample_row_def)
  have ok: "\<And>sys ctx. CHAT_MODEL (sample_env []) sys ctx = Inr ''Rest and drink water.''"
    by (simp add: sample_env_def)
  have bad: "\<And>sys ctx. CHAT_MODEL failing_env sys ctx = Inl (LLMError ''unavailable'')"
    by (simp add: failing_env_def)
  from conversation_turn[OF h1 h2 refl refl refl, of "sample_env []" "''hello''" 42] ok
  have a: "conversation (sample_env []) (sample_store [sample_chat]) 1 3 ''hello'' 42
       = (Inr \<lparr>lr_chat_id = 3, lr_response = ''Rest and drink water.'', lr_response_at = 42\<rparr>,
          sample_store [sample_chat\<lparr>messages := MsgDict (out_of_order_log @
             [(''message4'', \<lparr>query = Some ''hello'', response = Some ''Rest and drink water.''\<rparr>)])\<rparr>])"
    unfolding h k u by blast
  from conversation_turn[OF h1 h2 refl refl refl, of failing_env "''hello''" 42] bad
  have b: "conversation failing_env (sample_store [sample_chat]) 1 3 ''hello'' 42
       = (Inl (HTTPException 500 (Formatted ''Failed to process chat: '' (LLMError ''unavailable''))),
          sample_store [sample_chat])"
    by blast
  note t = conversation_turn[OF h1 h2 refl refl refl, of failing_env "''hello''" 42]
  from t b have c: "snd (conversation failing_env (sample_store [sample_chat]) 1 3 ''hello'' 42)
       = sample_store [sample_chat]"
    by simp
  have "''message3'' \<in> set (map fst out_of_order_log)"
    by (simp add: out_of_order_log_def)
  moreover have "isdigit (remove_message ''message3'')"
    using remove_message_message_key[of 3] isdigit_str_nat[of 3]
    by (simp add: message_key_def str_nat.simps digit_char_def)
  ultimately have d: "int_of_str (remove_message ''message3'') < next_msg_num out_of_order_log"
    using t unfolding h by blast
  from t have e: "message_key (next_msg_num out_of_order_log) \<notin> set (map fst out_of_order_log)"
    unfolding h by blast
  from h1 h2 a b c d e show ?thesis by (intro conjI)
qed

section \<open>One row of the chat history\<close>

lemma budget_gate_cases:
  assumes "budget_gate env rc hc st = (res, st1)"
  shows "db st1 = db st \<and> classifier_calls st1 = classifier_calls st
    \<and> (res = Inl AttributeError \<or> res = Inr (False, Some ''0.10%'') \<or> res = Inr (True, None))"
  using assms by (auto simp: budget_gate_def Let_def split: if_splits option.splits)

lemma compute_and_store_cases:
  assumes "compute_and_store env c syms st = (res, st1)"
  shows "(\<exists>e. res = Inl e \<and> max_probability env syms = Inl e \<and> db st1 = db st)
    \<or> (\<exists>prob. res = Inr (Some (format_pct (py_max lit_0_001 prob)))
          \<and> max_probability env syms = Inr prob
          \<and> db st1 = store_confidence (format_pct (py_max lit_0_001 prob)) (chat_id c) (db st))"
  using assms
  by (auto simp: compute_and_store_def max_probability_def Let_def split: sum.splits)

lemma confidence_try_cases:
  assumes "confidence_try env rc ird c st = (res, st1)"
  shows "(has_valid_confidence (has_confidence_column (db st)) ird (confidence c)
            \<and> res = Inr (confidence c) \<and> st1 = st)
    \<or> (\<not> has_valid_confidence (has_confidence_column (db st)) ird (confidence c)
          \<and> parse_symptoms (symptoms c) = [] \<and> res = Inr None \<and> st1 = st)
    \<or> (\<not> has_valid_confidence (has_confidence_column (db st)) ird (confidence c)
          \<and> parse_symptoms (symptoms c) \<noteq> []
          \<and> (res = Inr (Some ''0.10%'') \<or> (\<exists>e. res = Inl e)) \<and> db st1 = db st)
    \<or> (\<not> has_valid_confidence (has_confidence_column (db st)) ird (confidence c)
          \<and> parse_symptoms (symptoms c) \<noteq> []
          \<and> (\<exists>prob. max_probability env (parse_symptoms (symptoms c)) = Inr prob
                \<and> res = Inr (Some (format_pct (py_max lit_0_001 prob)))
                \<and> db st1 = store_confidence (format_pct (py_max lit_0_001 prob)) (chat_id c) (db st)))"
proof (cases "has_valid_confidence (has_confidence_column (db st)) ird (confidence c)")
  case True
  with assms show ?thesis by (simp add: confidence_try_def)
next
  case nv: False
  show ?thesis
  proof (cases "parse_symptoms (symptoms c) = []")
    case True
    with nv assms show ?thesis by (auto simp: confidence_try_def Let_def split: if_splits)
  next
    case ne: False
    then have sy: "symptoms c \<noteq> SymNull" "symptoms c \<noteq> SymEmptyStr"
      by (auto simp: parse_symptoms_def)
    obtain g st0 where g: "budget_gate env rc (has_confidence_column (db st)) st = (g, st0)"
      by (cases "budget_gate env rc (has_confidence_column (db st)) st")
    note bc = budget_gate_cases[OF g]
    from bc consider (raise) "g = Inl AttributeError" | (skip) "g = Inr (False, Some ''0.10%'')"
      | (go) "g = Inr (True, None)" by blast
    then show ?thesis
    proof cases
      case raise
      with assms nv ne sy g bc show ?thesis by (auto simp: confidence_try_def Let_def)
    next
      case skip
      with assms nv ne sy g bc show ?thesis by (auto simp: confidence_try_def Let_def)
    next
      case go
      with assms nv ne sy g have cs: "compute_and_store env c (parse_symptoms (symptoms c)) st0 = (res, st1)"
        by (simp add: confidence_try_def Let_def)
      from compute_and_store_cases[OF cs] bc nv ne show ?thesis by auto
    qed
  qed
qed

lemma row_confidence_cases:
  assumes "row_confidence env rc ird c st = (v, st1)"
  shows "(has_valid_confidence (has_confidence_column (db st)) ird (confidence c)
            \<and> v = confidence c \<and> st1 = st)
    \<or> (\<not> has_valid_confidence (has_confidence_column (db st)) ird (confidence c)
          \<and> parse_symptoms (symptoms c) = [] \<and> v = None \<and> st1 = st)
    \<or> (\<not> has_valid_confidence (has_confidence_column (db st)) ird (confidence c)
          \<and> parse_symptoms (symptoms c) \<noteq> [] \<and> v = Some ''0.10%'' \<and> db st1 = db st)
    \<or> (\<not> has_valid_confidence (has_confidence_column (db st)) ird (confidence c)
          \<and> parse_symptoms (symptoms c) \<noteq> []
          \<and> (\<exists>prob. max_probability env (parse_symptoms (symptoms c)) = Inr prob
                \<and> v = Some (format_pct (py_max lit_0_001 prob))
                \<and> db st1 = store_confidence (format_pct (py_max lit_0_001 prob)) (chat_id c) (db st)))"
proof -
  obtain res st0 where t: "confidence_try env rc ird c st = (res, st0)"
    by (cases "confidence_try env rc ird c st")
  from assms t have r: "st1 = st0" "v = (case res of Inl e \<Rightarrow> Some ''0.10%'' | Inr x \<Rightarrow> x)"
    by (auto simp: row_confidence_def split: sum.splits)
  from confidence_try_cases[OF t] show ?thesis unfolding r by (elim disjE) auto
qed

section \<open>A valid stored value is returned as it is\<close>

lemma has_valid_confidence_isValid:
  "has_valid_confidence True True stored = isValid stored"
  by (auto simp: has_valid_confidence_def isValid_def)

lemma has_valid_confidence_imp_isValid:
  "has_valid_confidence hc ird stored \<Longrightarrow> isValid stored"
  by (auto simp: has_valid_confidence_def isValid_def)

lemma format_pct_not_invalid:
  "\<not> isValid (Some (format_pct (py_max lit_0_001 prob))) \<Longrightarrow> False"
proof -
  assume "\<not> isValid (Some (format_pct (py_max lit_0_001 prob)))"
  then consider "format_pct (py_max lit_0_001 prob) = []" | "format_pct (py_max lit_0_001 prob) = ''0%''"
    | "format_pct (py_max lit_0_001 prob) = ''0.00%''"
    by (auto simp: isValid_def)
  then show False
  proof cases
    case 1
    then show False using format_pct_length[of "py_max lit_0_001 prob"] by simp
  next
    case 2
    then show False using format_pct_length[of "py_max lit_0_001 prob"] by simp
  next
    case 3
    then show False using format_pct_clamped_not_zero[of prob] by simp
  qed
qed

text \<open>
  Claim C5. The test of the memoizer is the predicate \<open>isValid\<close>: false exactly for
  None, the empty string, 0% and 0.00%, true for every other string. For a row
  fetched from a table that has the column, a stored value is returned as it is, with
  the store, the connection and the classifier untouched, if and only if it is valid.
\<close>

theorem valid_cached_iff:
  "has_valid_confidence True True stored = isValid stored
   \<and> (isValid stored \<longleftrightarrow> stored \<notin> {None, Some [], Some ''0%'', Some ''0.00%''})
   \<and> (has_confidence_column (db st) \<and> in_row_dict \<longrightarrow>
        (isValid (confidence c) \<longleftrightarrow>
           confidence c \<noteq> None
           \<and> row_confidence env recompute_confidence in_row_dict c st = (confidence c, st)))"
proof (intro conjI impI)
  show "has_valid_confidence True True stored = isValid stored"
    by (rule has_valid_confidence_isValid)
  show "isValid stored \<longleftrightarrow> stored \<notin> {None, Some [], Some ''0%'', Some ''0.00%''}"
    by (auto simp: isValid_def)
next
  assume col: "has_confidence_column (db st) \<and> in_row_dict"
  then have hv: "has_valid_confidence (has_confidence_column (db st)) in_row_dict (confidence c)
      = isValid (confidence c)"
    by (simp add: has_valid_confidence_isValid)
  show "isValid (confidence c) \<longleftrightarrow>
           confidence c \<noteq> None
           \<and> row_confidence env recompute_confidence in_row_dict c st = (confidence c, st)"
  proof
    assume v: "isValid (confidence c)"
    then have "confidence c \<noteq> None" by (simp add: isValid_def)
    moreover from v hv have "row_confidence env recompute_confidence in_row_dict c st = (confidence c, st)"
      by (simp add: row_confidence_def confidence_try_def)
    ultimately show "confidence c \<noteq> None
           \<and> row_confidence env recompute_confidence in_row_dict c st = (confidence c, st)" ..
  next
    assume a: "confidence c \<noteq> None
           \<and> row_confidence env recompute_confidence in_row_dict c st = (confidence c, st)"
    show "isValid (confidence c)"
    proof (rule ccontr)
      assume nv: "\<not> isValid (confidence c)"
      from a have r: "row_confidence env recompute_confidence in_row_dict c st = (confidence c, st)"
        by simp
      from row_confidence_cases[OF r] hv nv a
      consider "confidence c = Some ''0.10%''"
        | prob where "confidence c = Some (format_pct (py_max lit_0_001 prob))"
        by auto
      then show False
      proof cases
        case 1
        with nv show False by (simp add: isValid_def)
      next
        case 2
        with nv show False using format_pct_not_invalid by simp
      qed
    qed
  qed
qed

theorem valid_cached_iff_witness:
  "has_confidence_column (db \<lparr>db = sample_store [], conn_compute_count = None, classifier_calls = []\<rparr>)
   \<and> isValid (confidence (sample_row 1 (Some ''73.42%'')))
   \<and> row_confidence (sample_env [1 / 2]) False True (sample_row 1 (Some ''73.42%''))
        \<lparr>db = sample_store [], conn_compute_count = None, classifier_calls = []\<rparr>
       = (Some ''73.42%'', \<lparr>db = sample_store [], conn_compute_count = None, classifier_calls = []\<rparr>)
   \<and> \<not> isValid (Some ''0.00%'') \<and> \<not> isValid (Some ''0%'') \<and> \<not> isValid (Some []) \<and> \<not> isValid None"
proof -
  let ?st = "\<lparr>db = sample_store [], conn_compute_count = None, classifier_calls = []\<rparr>"
  have h: "has_confidence_column (db ?st)" by (simp add: sample_store_def)
  have c: "confidence (sample_row 1 (Some ''73.42%'')) = Some ''73.42%''"
    by (simp add: sample_row_def)
  have v: "isValid (confidence (sample_row 1 (Some ''73.42%'')))"
    unfolding c by (simp add: isValid_def)
  from valid_cached_iff[of None ?st True "sample_row 1 (Some ''73.42%'')" "sample_env [1 / 2]" False] h v
  have "row_confidence (sample_env [1 / 2]) False True (sample_row 1 (Some ''73.42%'')) ?st
       = (confidence (sample_row 1 (Some ''73.42%'')), ?st)"
    and "\<not> isValid None"
    by simp_all
  moreover have "\<not> isValid (Some ''0.00%'')" "\<not> isValid (Some ''0%'')" "\<not> isValid (Some [])"
    using valid_cached_iff[of "Some ''0.00%''"] valid_cached_iff[of "Some ''0%''"]
      valid_cached_iff[of "Some []"] by simp_all
  ultimately show ?thesis using h v unfolding c by (intro conjI)
qed

section \<open>A failed recomputation gives the placeholder and stores nothing\<close>

lemma row_confidence_failure:
  assumes "\<not> isValid (confidence c)" and "parse_symptoms (symptoms c) \<noteq> []"
    and "max_probability env (parse_symptoms (symptoms c)) = Inl e"
    and "row_confidence env rc ird c st = (v, st1)"
  shows "v = Some ''0.10%'' \<and> db st1 = db st"
proof -
  have nv: "\<not> has_valid_confidence (has_confidence_column (db st)) ird (confidence c)"
    using assms(1) has_valid_confidence_imp_isValid by blast
  from row_confidence_cases[OF assms(4)] nv assms(2,3) show ?thesis by auto
qed

lemma add_confidence_column_ok:
  assumes "store_ok s" and "\<not> has_confidence_column s"
  shows "ChatDetails_rows (add_confidence_column s) = ChatDetails_rows s"
proof -
  from assms have "\<forall>r \<in> set (ChatDetails_rows s). confidence r = None"
    by (simp add: store_ok_def list_all_iff)
  then have "map (\<lambda>r. r\<lparr>confidence := None\<rparr>) (ChatDetails_rows s) = ChatDetails_rows s"
    by (intro map_idI) simp
  then show ?thesis by (simp add: add_confidence_column_def)
qed

lemma filter_update_other:
  assumes "x \<noteq> cid"
  shows "filter (\<lambda>r. chat_id r = x) (map (\<lambda>r. if chat_id r = cid then r\<lparr>confidence := Some v\<rparr> else r) rows)
       = filter (\<lambda>r. chat_id r = x) rows"
  using assms by (induction rows) auto

lemma store_confidence_other:
  assumes "store_ok s" and "x \<noteq> cid"
  shows "filter (\<lambda>r. chat_id r = x) (ChatDetails_rows (store_confidence v cid s))
       = filter (\<lambda>r. chat_id r = x) (ChatDetails_rows s)"
proof (cases "has_confidence_column s")
  case True
  then show ?thesis using assms(2)
    by (simp add: store_confidence_def update_confidence_sql_def filter_update_other)
next
  case False
  with assms(1) have "ChatDetails_rows (add_confidence_column s) = ChatDetails_rows s"
    by (rule add_confidence_column_ok)
  with False show ?thesis using assms(2)
    by (simp add: store_confidence_def update_confidence_sql_def filter_update_other)
qed

lemma store_confidence_ok: "store_ok (store_confidence v cid s)"
  by (simp add: store_ok_def store_confidence_def update_confidence_sql_def add_confidence_column_def)

text \<open>One row touches no stored row of another chat, and none at all when it fails.\<close>

lemma row_confidence_keeps:
  assumes "store_ok (db st)" and "row_confidence env rc ird c st = (v, st1)"
    and "chat_id c \<noteq> x \<or> (\<not> isValid (confidence c) \<and> parse_symptoms (symptoms c) \<noteq> []
          \<and> (\<exists>e. max_probability env (parse_symptoms (symptoms c)) = Inl e))"
  shows "store_ok (db st1)
     \<and> filter (\<lambda>r. chat_id r = x) (ChatDetails_rows (db st1)) = filter (\<lambda>r. chat_id r = x) (ChatDetails_rows (db st))"
proof -
  from row_confidence_cases[OF assms(2)]
  consider (same) "db st1 = db st"
    | (stored) prob where "max_probability env (parse_symptoms (symptoms c)) = Inr prob"
        "db st1 = store_confidence (format_pct (py_max lit_0_001 prob)) (chat_id c) (db st)"
    by auto
  then show ?thesis
  proof cases
    case same
    with assms(1) show ?thesis by simp
  next
    case stored
    with assms(3) have "x \<noteq> chat_id c" by auto
    with stored assms(1) show ?thesis
      by (simp add: store_confidence_ok store_confidence_other)
  qed
qed

lemma chat_hist_loop_Cons:
  assumes "chat_hist_loop env uid rc ird (c # cs) st = (out, st')"
  obtains v st1 rest where "row_confidence env rc ird c st = (v, st1)"
    and "chat_hist_loop env uid rc ird cs st1 = (rest, st')"
    and "out = \<lparr>cd_chat_id = chat_id c, cd_user_id = uid, cd_created_at = created_at c,
                  cd_messages = parse_messages (messages c), cd_disease = disease c,
                  cd_confidence = v\<rparr> # rest"
proof -
  obtain v st1 where r: "row_confidence env rc ird c st = (v, st1)"
    by (cases "row_confidence env rc ird c st")
  obtain rest st2 where l: "chat_hist_loop env uid rc ird cs st1 = (rest, st2)"
    by (cases "chat_hist_loop env uid rc ird cs st1")
  from assms r l that show thesis by (simp add: Let_def)
qed

lemma chat_hist_loop_ids:
  "chat_hist_loop env uid rc ird cs st = (out, st') \<Longrightarrow> map cd_chat_id out = map chat_id cs"
proof (induction cs arbitrary: st out)
  case Nil
  then show ?case by simp
next
  case (Cons c cs)
  from Cons.prems obtain v st1 rest where "chat_hist_loop env uid rc ird cs st1 = (rest, st')"
    and "map cd_chat_id out = chat_id c # map cd_chat_id rest"
    by (rule chat_hist_loop_Cons) simp
  with Cons.IH show ?case by simp
qed

lemma chat_hist_loop_failure:
  assumes "chat_hist_loop env uid rc ird cs st = (out, st')"
    and "i < length cs" and "recompute_fails env (cs ! i)"
  shows "cd_confidence (out ! i) = Some ''0.10%''"
  using assms
proof (induction cs arbitrary: st out i)
  case Nil
  then show ?case by simp
next
  case (Cons c cs)
  from Cons.prems(1) obtain v st1 rest where r: "row_confidence env rc ird c st = (v, st1)"
    and l: "chat_hist_loop env uid rc ird cs st1 = (rest, st')"
    and out: "cd_confidence (hd out) = v" "tl out = rest" "out \<noteq> []"
    by (rule chat_hist_loop_Cons) simp
  show ?case
  proof (cases i)
    case 0
    with Cons.prems(3) have f: "recompute_fails env c" by simp
    then obtain e where "max_probability env (parse_symptoms (symptoms c)) = Inl e"
      by (auto simp: recompute_fails_def isl_def)
    with f r have "v = Some ''0.10%''"
      using row_confidence_failure[of c env e rc ird st v st1] by (simp add: recompute_fails_def)
    with 0 out show ?thesis by (simp add: hd_conv_nth)
  next
    case (Suc j)
    with Cons.prems have "j < length cs" "recompute_fails env (cs ! j)" by simp_all
    from Cons.IH[OF l this] have "cd_confidence (rest ! j) = Some ''0.10%''" .
    with Suc out show ?thesis by (cases out) simp_all
  qed
qed

lemma chat_hist_loop_keeps:
  assumes "store_ok (db st)" and "chat_hist_loop env uid rc ird cs st = (out, st')"
    and "\<forall>c \<in> set cs. chat_id c \<noteq> x \<or> recompute_fails env c"
  shows "store_ok (db st')
     \<and> filter (\<lambda>r. chat_id r = x) (ChatDetails_rows (db st')) = filter (\<lambda>r. chat_id r = x) (ChatDetails_rows (db st))"
  using assms
proof (induction cs arbitrary: st out)
  case Nil
  then show ?case by simp
next
  case (Cons c cs)
  from Cons.prems(2) obtain v st1 rest where r: "row_confidence env rc ird c st = (v, st1)"
    and l: "chat_hist_loop env uid rc ird cs st1 = (rest, st')"
    by (rule chat_hist_loop_Cons)
  from Cons.prems(3) have c: "chat_id c \<noteq> x \<or> (\<not> isValid (confidence c) \<and> parse_symptoms (symptoms c) \<noteq> []
          \<and> (\<exists>e. max_probability env (parse_symptoms (symptoms c)) = Inl e))"
    by (auto simp: recompute_fails_def isl_def)
  from row_confidence_keeps[OF Cons.prems(1) r c]
  have ok1: "store_ok (db st1)"
    and f1: "filter (\<lambda>r. chat_id r = x) (ChatDetails_rows (db st1)) = filter (\<lambda>r. chat_id r = x) (ChatDetails_rows (db st))"
    by simp_all
  from Cons.prems(3) have "\<forall>c \<in> set cs. chat_id c \<noteq> x \<or> recompute_fails env c" by simp
  from Cons.IH[OF ok1 l this] f1 show ?case by simp
qed

lemma select_page_subset: "set (select_page s uid per_page offset) \<subseteq> set (ChatDetails_rows s)"
proof -
  have "set (select_page s uid per_page offset)
      \<subseteq> set (rev (sort_key created_at (rev (filter (\<lambda>r. user_id r = uid) (ChatDetails_rows s)))))"
    unfolding select_page_def
    by (meson set_take_subset set_drop_subset subset_trans)
  then show ?thesis by auto
qed

lemma select_page_distinct:
  assumes "distinct (map chat_id (ChatDetails_rows s))"
  shows "distinct (map chat_id (select_page s uid per_page offset))"
proof -
  let ?xs = "rev (filter (\<lambda>r. user_id r = uid) (ChatDetails_rows s))"
  let ?ys = "sort_key created_at ?xs"
  have "distinct (map chat_id (filter (\<lambda>r. user_id r = uid) (ChatDetails_rows s)))"
    using assms by (rule distinct_map_filter)
  then have "distinct (map chat_id ?xs)" by (simp add: distinct_map)
  moreover have "mset (map chat_id ?ys) = mset (map chat_id ?xs)" by simp
  ultimately have "distinct (map chat_id ?ys)"
    using mset_eq_imp_distinct_iff by blast
  then have "distinct (map chat_id (rev ?ys))" by (simp add: distinct_map)
  then have "distinct (drop offset (map chat_id (rev ?ys)))" by (rule distinct_drop)
  then have "distinct (take per_page (drop offset (map chat_id (rev ?ys))))" by (rule distinct_take)
  then show ?thesis by (simp add: select_page_def take_map drop_map)
qed

lemma filter_key_single:
  assumes "distinct (map f xs)" and "c \<in> set xs"
  shows "filter (\<lambda>r. f r = f c) xs = [c]"
  using assms by (induction xs) (auto simp: filter_empty_conv image_iff)

text \<open>
  Claim C3. In a listing call, for every row of the page whose recomputation is
  attempted and raises (in the vectoriser, the classifier or the maximum), the entry
  of that row in the response has the confidence 0.10%, the stored row is after the
  call what it was before, and the response still has one entry per row of the page,
  in the order of the page.
\<close>

theorem chat_hist_failure_contained:
  assumes "store_ok s" and "distinct (map chat_id (ChatDetails_rows s))"
    and "chat_data = select_page s uid per_page ((page - 1) * per_page)"
    and "i < length chat_data" and "recompute_fails env (chat_data ! i)"
    and "chat_hist env s uid page per_page recompute_confidence = (resp, st)"
  shows "map cd_chat_id (chats resp) = map chat_id chat_data
    \<and> cd_confidence (chats resp ! i) = Some ''0.10%''
    \<and> filter (\<lambda>r. chat_id r = chat_id (chat_data ! i)) (ChatDetails_rows (db st)) = [chat_data ! i]"
proof -
  let ?st0 = "\<lparr>db = s, conn_compute_count = None, classifier_calls = []\<rparr>"
  let ?c = "chat_data ! i"
  from assms(4) have ne: "chat_data \<noteq> []" by auto
  obtain out st' where l: "chat_hist_loop env uid recompute_confidence (has_confidence_column s) chat_data ?st0 = (out, st')"
    by (cases "chat_hist_loop env uid recompute_confidence (has_confidence_column s) chat_data ?st0")
  from assms(6) ne l have resp: "chats resp = out" and st: "st = st'"
    unfolding assms(3) chat_hist_def by (auto simp: Let_def)
  have ids: "map cd_chat_id out = map chat_id chat_data" using l by (rule chat_hist_loop_ids)
  have conf: "cd_confidence (out ! i) = Some ''0.10%''"
    using l assms(4,5) by (rule chat_hist_loop_failure)
  have dpage: "distinct (map chat_id chat_data)"
    unfolding assms(3) using assms(2) by (rule select_page_distinct)
  have cin: "?c \<in> set chat_data" using assms(4) by simp
  have others: "\<forall>c \<in> set chat_data. chat_id c \<noteq> chat_id ?c \<or> recompute_fails env c"
  proof
    fix c assume "c \<in> set chat_data"
    with dpage cin have "chat_id c = chat_id ?c \<Longrightarrow> c = ?c"
      by (auto simp: distinct_map dest: inj_onD)
    with assms(5) show "chat_id c \<noteq> chat_id ?c \<or> recompute_fails env c" by auto
  qed
  have "store_ok (db ?st0)" using assms(1) by simp
  from chat_hist_loop_keeps[OF this l others]
  have "filter (\<lambda>r. chat_id r = chat_id ?c) (ChatDetails_rows (db st'))
      = filter (\<lambda>r. chat_id r = chat_id ?c) (ChatDetails_rows s)"
    by simp
  also have "\<dots> = [?c]"
  proof (rule filter_key_single[OF assms(2)])
    show "?c \<in> set (ChatDetails_rows s)"
      using cin select_page_subset unfolding assms(3) by blast
  qed
  finally show ?thesis using ids conf resp st by simp
qed

lemma sample_page:
  "select_page (sample_store [sample_row 1 None, sample_row 2 (Some ''73.42%'')]) 1 20 ((1 - 1) * 20)
   = [sample_row 2 (Some ''73.42%''), sample_row 1 None]"
  by (simp add: select_page_def sample_store_def sample_row_def)

lemma sample_recompute_fails: "recompute_fails failing_env (sample_row 1 None)"
  by (simp add: recompute_fails_def sample_row_def isValid_def parse_symptoms_def
      max_probability_def failing_env_def)

theorem chat_hist_failure_contained_witness:
  "store_ok (sample_store [sample_row 1 None, sample_row 2 (Some ''73.42%'')])
   \<and> recompute_fails failing_env (sample_row 1 None)
   \<and> map cd_chat_id (chats (fst (chat_hist failing_env
         (sample_store [sample_row 1 None, sample_row 2 (Some ''73.42%'')]) 1 1 20 False))) = [2, 1]
   \<and> cd_confidence (chats (fst (chat_hist failing_env
         (sample_store [sample_row 1 None, sample_row 2 (Some ''73.42%'')]) 1 1 20 False)) ! 1)
       = Some ''0.10%''
   \<and> filter (\<lambda>r. chat_id r = 1) (ChatDetails_rows (db (snd (chat_hist failing_env
         (sample_store [sample_row 1 None, sample_row 2 (Some ''73.42%'')]) 1 1 20 False))))
       = [sample_row 1 None]"
proof -
  let ?s = "sample_store [sample_row 1 None, sample_row 2 (Some ''73.42%'')]"
  let ?page = "[sample_row 2 (Some ''73.42%''), sample_row 1 None]"
  have ok: "store_ok ?s" by (simp add: store_ok_def sample_store_def)
  have d: "distinct (map chat_id (ChatDetails_rows ?s))"
    by (simp add: sample_store_def sample_row_def)
  have p: "?page = select_page ?s 1 20 ((1 - 1) * 20)" by (simp only: sample_page)
  have i: "1 < length ?page" by simp
  have f: "recompute_fails failing_env (?page ! 1)" using sample_recompute_fails by simp
  have r: "chat_hist failing_env ?s 1 1 20 False
      = (fst (chat_hist failing_env ?s 1 1 20 False), snd (chat_hist failing_env ?s 1 1 20 False))"
    by simp
  have c: "chat_id (sample_row 1 None) = 1" "chat_id (sample_row 2 (Some ''73.42%'')) = 2"
    by (simp_all add: sample_row_def)
  from chat_hist_failure_contained[OF ok d p i f r] c ok sample_recompute_fails
  show ?thesis by simp
qed

section \<open>With the column in place every row is recomputed\<close>

lemma row_confidence_computes:
  assumes "has_confidence_column (db st)" and "\<not> isValid (confidence c)"
    and "symptoms c = SymList syms" and "syms \<noteq> []"
    and "max_probability env syms = Inr prob"
  shows "row_confidence env rc ird c st
     = (Some (format_pct (py_max lit_0_001 prob)),
        st\<lparr>classifier_calls := classifier_calls st @ [create_input_vector (SYMPTOMS env) syms],
           db := store_confidence (format_pct (py_max lit_0_001 prob)) (chat_id c) (db st)\<rparr>)"
proof -
  have nv: "\<not> has_valid_confidence (has_confidence_column (db st)) ird (confidence c)"
    using assms(2) has_valid_confidence_imp_isValid by blast
  have g: "budget_gate env rc True st = (Inr (True, None), st)"
    by (simp add: budget_gate_def)
  have cs: "compute_and_store env c syms st
     = (Inr (Some (format_pct (py_max lit_0_001 prob))),
        st\<lparr>classifier_calls := classifier_calls st @ [create_input_vector (SYMPTOMS env) syms],
           db := store_confidence (format_pct (py_max lit_0_001 prob)) (chat_id c) (db st)\<rparr>)"
    using assms(5)
    by (auto simp: compute_and_store_def max_probability_def Let_def split: sum.splits)
  show ?thesis
    using nv assms(1,3,4) g cs
    by (simp add: row_confidence_def confidence_try_def parse_symptoms_def)
qed

lemma store_confidence_column: "has_confidence_column (store_confidence v cid s)"
  by (simp add: store_confidence_def update_confidence_sql_def add_confidence_column_def)

lemma store_confidence_rows:
  "has_confidence_column s \<Longrightarrow>
   ChatDetails_rows (store_confidence v cid s)
     = map (\<lambda>r. if chat_id r = cid then r\<lparr>confidence := Some v\<rparr> else r) (ChatDetails_rows s)"
  by (simp add: store_confidence_def update_confidence_sql_def)

lemma chat_hist_loop_computes_all:
  assumes "has_confidence_column (db st)"
    and "\<forall>c \<in> set cs. \<not> isValid (confidence c) \<and> parse_symptoms (symptoms c) \<noteq> []
           \<and> symptoms c = SymList (parse_symptoms (symptoms c))
           \<and> max_probability env (parse_symptoms (symptoms c)) = Inr prob"
    and "chat_hist_loop env uid rc ird cs st = (out, st')"
  shows "map cd_confidence out = map (\<lambda>c. Some (format_pct (py_max lit_0_001 prob))) cs
    \<and> length (classifier_calls st') = length (classifier_calls st) + length cs
    \<and> ChatDetails_rows (db st')
        = map (\<lambda>r. if chat_id r \<in> set (map chat_id cs)
                    then r\<lparr>confidence := Some (format_pct (py_max lit_0_001 prob))\<rparr> else r)
            (ChatDetails_rows (db st))"
  using assms
proof (induction cs arbitrary: st out)
  case Nil
  then show ?case by simp
next
  case (Cons c cs)
  let ?F = "format_pct (py_max lit_0_001 prob)"
  from Cons.prems(3) obtain v st1 rest where r: "row_confidence env rc ird c st = (v, st1)"
    and l: "chat_hist_loop env uid rc ird cs st1 = (rest, st')"
    and out: "map cd_confidence out = v # map cd_confidence rest"
    by (rule chat_hist_loop_Cons) simp
  from Cons.prems(2) have c: "\<not> isValid (confidence c)" "parse_symptoms (symptoms c) \<noteq> []"
    "symptoms c = SymList (parse_symptoms (symptoms c))"
    "max_probability env (parse_symptoms (symptoms c)) = Inr prob"
    by simp_all
  from row_confidence_computes[OF Cons.prems(1) c(1) c(3) c(2) c(4), of rc ird] r
  have v: "v = Some ?F"
    and st1: "st1 = st\<lparr>classifier_calls := classifier_calls st
                  @ [create_input_vector (SYMPTOMS env) (parse_symptoms (symptoms c))],
               db := store_confidence ?F (chat_id c) (db st)\<rparr>"
    by simp_all
  have col1: "has_confidence_column (db st1)" unfolding st1 by (simp add: store_confidence_column)
  have rows1: "ChatDetails_rows (db st1)
     = map (\<lambda>r. if chat_id r = chat_id c then r\<lparr>confidence := Some ?F\<rparr> else r) (ChatDetails_rows (db st))"
    unfolding st1 using Cons.prems(1) by (simp add: store_confidence_rows)
  have calls1: "length (classifier_calls st1) = length (classifier_calls st) + 1"
    unfolding st1 by simp
  from Cons.prems(2) have rest: "\<forall>c \<in> set cs. \<not> isValid (confidence c) \<and> parse_symptoms (symptoms c) \<noteq> []
           \<and> symptoms c = SymList (parse_symptoms (symptoms c))
           \<and> max_probability env (parse_symptoms (symptoms c)) = Inr prob"
    by simp
  from Cons.IH[OF col1 rest l]
  have ih1: "map cd_confidence rest = map (\<lambda>c. Some ?F) cs"
    and ih2: "length (classifier_calls st') = length (classifier_calls st1) + length cs"
    and ih3: "ChatDetails_rows (db st')
        = map (\<lambda>r. if chat_id r \<in> set (map chat_id cs) then r\<lparr>confidence := Some ?F\<rparr> else r)
            (ChatDetails_rows (db st1))"
    by simp_all
  have "ChatDetails_rows (db st')
        = map (\<lambda>r. if chat_id r \<in> set (map chat_id (c # cs)) then r\<lparr>confidence := Some ?F\<rparr> else r)
            (ChatDetails_rows (db st))"
    unfolding ih3 rows1 by (simp add: comp_def cong: if_cong) 
  with out v ih1 ih2 calls1 show ?case by simp
qed

lemma seven_chats_page:
  "select_page seven_chats 1 20 ((1 - 1) * 20) = map (\<lambda>i. sample_row i None) [7, 6, 5, 4, 3, 2, 1]"
  by (simp add: select_page_def seven_chats_def sample_store_def sample_row_def)

lemma sample_row_needs_recompute:
  "\<not> isValid (confidence (sample_row i None)) \<and> parse_symptoms (symptoms (sample_row i None)) \<noteq> []
   \<and> symptoms (sample_row i None) = SymList (parse_symptoms (symptoms (sample_row i None)))
   \<and> max_probability (sample_env [1 / 2, 1 / 4]) (parse_symptoms (symptoms (sample_row i None))) = Inr (py_float (Fin (1 / 2)))"
  by (simp add: sample_row_def isValid_def parse_symptoms_def max_probability_def sample_env_def
      np_max_def float_gt_def)

lemma chat_hist_nonempty:
  assumes "select_page s uid per_page ((page - 1) * per_page) = cd" and "cd \<noteq> []"
    and "chat_hist_loop env uid rc (has_confidence_column s) cd
           \<lparr>db = s, conn_compute_count = None, classifier_calls = []\<rparr> = (out, st')"
  shows "chats (fst (chat_hist env s uid page per_page rc)) = out
    \<and> snd (chat_hist env s uid page per_page rc) = st'"
  using assms by (simp add: chat_hist_def Let_def)

text \<open>
  Claim C1 at a concrete input: seven chats without a stored confidence, the column
  present, the flag off. All seven are recomputed and written back; none gets the
  placeholder.
\<close>

theorem chat_hist_seven_all_recomputed:
  "map cd_confidence (chats (fst (chat_hist (sample_env [1 / 2, 1 / 4]) seven_chats 1 1 20 False)))
     = replicate 7 (Some ''50.00%'')
   \<and> length (classifier_calls (snd (chat_hist (sample_env [1 / 2, 1 / 4]) seven_chats 1 1 20 False))) = 7
   \<and> map confidence (ChatDetails_rows (db (snd (chat_hist (sample_env [1 / 2, 1 / 4]) seven_chats 1 1 20 False))))
     = replicate 7 (Some ''50.00%'')"
proof -
  let ?env = "sample_env [1 / 2, 1 / 4]"
  let ?st0 = "\<lparr>db = seven_chats, conn_compute_count = None, classifier_calls = []\<rparr>"
  let ?page = "map (\<lambda>i. sample_row i None) [7, 6, 5, 4, 3, 2, 1]"
  obtain out st' where l: "chat_hist_loop ?env 1 False (has_confidence_column seven_chats) ?page ?st0 = (out, st')"
    by (cases "chat_hist_loop ?env 1 False (has_confidence_column seven_chats) ?page ?st0")
  have res: "chats (fst (chat_hist ?env seven_chats 1 1 20 False)) = out"
    "snd (chat_hist ?env seven_chats 1 1 20 False) = st'"
    using chat_hist_nonempty[OF seven_chats_page _ l] by simp_all
  have col: "has_confidence_column (db ?st0)" by (simp add: seven_chats_def sample_store_def)
  have all: "\<forall>c \<in> set ?page. \<not> isValid (confidence c) \<and> parse_symptoms (symptoms c) \<noteq> []
           \<and> symptoms c = SymList (parse_symptoms (symptoms c))
           \<and> max_probability ?env (parse_symptoms (symptoms c)) = Inr (py_float (Fin (1 / 2)))"
    using sample_row_needs_recompute by auto
  from chat_hist_loop_computes_all[OF col all l]
  have a: "map cd_confidence out = map (\<lambda>c. Some ''50.00%'') ?page"
    and b: "length (classifier_calls st') = length ?page"
    and c: "ChatDetails_rows (db st')
        = map (\<lambda>r. if chat_id r \<in> set (map chat_id ?page) then r\<lparr>confidence := Some ''50.00%''\<rparr> else r)
            (ChatDetails_rows seven_chats)"
    unfolding format_pct_half by simp_all
  from a have a': "map cd_confidence out = replicate 7 (Some ''50.00%'')"
    by (simp add: numeral_eq_Suc)
  from b have b': "length (classifier_calls st') = 7" by simp
  have c': "map confidence (ChatDetails_rows (db st')) = replicate 7 (Some ''50.00%'')"
    unfolding c by (simp add: seven_chats_def sample_store_def sample_row_def numeral_eq_Suc)
  from a' b' c' show ?thesis unfolding res by (intro conjI)
qed

section \<open>The recompute flag and the unknown chat\<close>

lemma row_confidence_cached:
  "has_confidence_column (db st) \<Longrightarrow> isValid (confidence c) \<Longrightarrow>
   row_confidence env rc True c st = (confidence c, st)"
  by (simp add: row_confidence_def confidence_try_def has_valid_confidence_isValid)

text \<open>
  Claim C2 at a concrete input: one chat with the valid stored confidence 73.42%, the
  recompute flag set. The stored value is returned, the classifier is not called and
  the store is not written.
\<close>

theorem chat_hist_flag_returns_cached:
  "map cd_confidence (chats (fst (chat_hist (sample_env [1 / 2, 1 / 4])
        (sample_store [sample_row 1 (Some ''73.42%'')]) 1 1 20 True)))
     = [Some ''73.42%'']
   \<and> classifier_calls (snd (chat_hist (sample_env [1 / 2, 1 / 4])
        (sample_store [sample_row 1 (Some ''73.42%'')]) 1 1 20 True)) = []
   \<and> db (snd (chat_hist (sample_env [1 / 2, 1 / 4])
        (sample_store [sample_row 1 (Some ''73.42%'')]) 1 1 20 True))
     = sample_store [sample_row 1 (Some ''73.42%'')]"
proof -
  let ?env = "sample_env [1 / 2, 1 / 4]"
  let ?c = "sample_row 1 (Some ''73.42%'')"
  let ?s = "sample_store [?c]"
  let ?st0 = "\<lparr>db = ?s, conn_compute_count = None, classifier_calls = []\<rparr>"
  have page: "select_page ?s 1 20 ((1 - 1) * 20) = [?c]"
    by (simp add: select_page_def sample_store_def sample_row_def)
  have col: "has_confidence_column (db ?st0)" "has_confidence_column ?s = True"
    by (simp_all add: sample_store_def)
  have v: "isValid (confidence ?c)" by (simp add: sample_row_def isValid_def)
  have r: "row_confidence ?env True True ?c ?st0 = (confidence ?c, ?st0)"
    using col(1) v by (rule row_confidence_cached)
  have l: "chat_hist_loop ?env 1 True (has_confidence_column ?s) [?c] ?st0
      = ([\<lparr>cd_chat_id = chat_id ?c, cd_user_id = 1, cd_created_at = created_at ?c,
            cd_messages = parse_messages (messages ?c), cd_disease = disease ?c,
            cd_confidence = confidence ?c\<rparr>], ?st0)"
    unfolding col(2) using r by (simp add: Let_def)
  from chat_hist_nonempty[OF page _ l]
  have "chats (fst (chat_hist ?env ?s 1 1 20 True))
        = [\<lparr>cd_chat_id = chat_id ?c, cd_user_id = 1, cd_created_at = created_at ?c,
            cd_messages = parse_messages (messages ?c), cd_disease = disease ?c,
            cd_confidence = confidence ?c\<rparr>]"
    and "snd (chat_hist ?env ?s 1 1 20 True) = ?st0"
    by simp_all
  then show ?thesis by (simp add: sample_row_def)
qed

text \<open>
  Claim C4 at a concrete input: a chat id that no row has. The 404 raised inside the
  \<^verbatim>\<open>try\<close> block is caught by the handler of the endpoint and leaves as a 500, also
  for a chat that belongs to another user; \<open>update_confidence\<close>, which re-raises
  \<^verbatim>\<open>HTTPException\<close> first, answers 404 on the same input.
\<close>

theorem conversation_unknown_chat_is_500:
  "conversation (sample_env []) seven_chats 1 9 ''hello'' 42
     = (Inl (HTTPException 500 (Formatted ''Failed to process chat: ''
               (HTTPException 404 (Text ''Chat not found'')))), seven_chats)
   \<and> conversation (sample_env []) seven_chats 2 3 ''hello'' 42
     = (Inl (HTTPException 500 (Formatted ''Failed to process chat: ''
               (HTTPException 404 (Text ''Chat not found'')))), seven_chats)
   \<and> update_confidence (sample_env []) seven_chats 1 9
     = (Inl (HTTPException 404 (Text ''Chat not found'')), seven_chats)"
  by (simp add: conversation_def conversation_try_def update_confidence_def
      update_confidence_try_def seven_chats_def sample_store_def sample_row_def)

end
